theory Spec2Isabelle
  imports Complex_Main "HOL-Library.Sublist" "HOL-Library.Multiset"
begin

section \<open>Values of the filter DSL\<close>

text \<open>
  The \<open>value\<close> of a filter condition is untyped at run time (\<open>unknown\<close> in
  \<open>conditionToPrisma\<close>): a string, a number, a boolean, \<open>null\<close>, an array, or absent
  (\<open>undefined\<close>). The translator adds \<open>Date\<close> objects. Numbers are carried through the
  translator untouched, no arithmetic is done on them; they are modelled as rationals.
  A \<open>Date\<close> is its time value, milliseconds since the epoch, or \<open>None\<close> for the
  time value \<open>NaN\<close> (an invalid date).
\<close>

type_synonym jsdate = "int option"

datatype jsvalue =
    JUndefined
  | JNull
  | JBool bool
  | JNum rat
  | JStr string
  | JArr "jsvalue list"
  | JDate jsdate

fun isString :: "jsvalue \<Rightarrow> bool" where
  "isString (JStr s) = True"
| "isString v = False"

fun isArray :: "jsvalue \<Rightarrow> bool" where
  "isArray (JArr vs) = True"
| "isArray v = False"

section \<open>The platform's dates\<close>

text \<open>
  \<open>parseRelativeDate\<close> works through the platform's \<open>Date\<close>: \<open>new Date()\<close>,
  \<open>new Date(string)\<close>, \<open>getDate/setDate\<close>, \<open>getHours/setHours\<close> and
  \<open>getMonth/setMonth\<close>. These are the abstract operations of ECMA-262 (section
  "Date Objects"), over integer time values. The clock reading, the offset of the local
  time zone from UTC and the platform's string parser are parameters. The offset is
  ECMA-262's \<open>LocalTZA(t, isUTC)\<close>: it depends on the instant (daylight saving), and
  reads \<open>t\<close> as a UTC time value when \<open>isUTC\<close> is true and as a local one when it
  is false.

  The platform computes with doubles. Every time value \<open>TimeClip\<close> lets through is an
  integer of at most 8 640 000 000 000 000 in absolute value, which a double holds
  exactly, and a computation whose exact result is beyond that bound gives \<open>NaN\<close> on the
  platform and \<open>None\<close> here: the integers agree with the doubles on every result.
\<close>

record platform =
  now :: int
  localTZA :: "int \<Rightarrow> bool \<Rightarrow> int"
  dateParse :: "string \<Rightarrow> jsdate"

definition msPerSecond :: int where "msPerSecond = 1000"
definition msPerMinute :: int where "msPerMinute = 60000"
definition msPerHour :: int where "msPerHour = 3600000"
definition msPerDay :: int where "msPerDay = 86400000"

definition Day :: "int \<Rightarrow> int" where
  "Day t = t div msPerDay"

definition TimeWithinDay :: "int \<Rightarrow> int" where
  "TimeWithinDay t = t mod msPerDay"

definition DaysInYear :: "int \<Rightarrow> int" where
  "DaysInYear y =
     (if y mod 4 \<noteq> 0 then 365
      else if y mod 100 \<noteq> 0 then 366
      else if y mod 400 \<noteq> 0 then 365
      else 366)"

definition DayFromYear :: "int \<Rightarrow> int" where
  "DayFromYear y =
     365 * (y - 1970) + (y - 1969) div 4 - (y - 1901) div 100 + (y - 1601) div 400"

lemma div_step:
  fixes a k :: int
  assumes "0 < k"
  shows "(a + 1) div k = a div k + (if (a + 1) mod k = 0 then 1 else 0)"
proof (cases "a mod k = k - 1")
  case True
  have "a + 1 = k * (a div k + 1) + 0"
    using div_mult_mod_eq [of a k] True by (simp add: algebra_simps)
  then have "(a + 1) div k = a div k + 1" and "(a + 1) mod k = 0"
    using assms by (metis int_div_pos_eq order_refl, metis int_mod_pos_eq order_refl)
  then show ?thesis by simp
next
  case False
  have "a mod k < k" "0 \<le> a mod k"
    using assms by simp_all
  then have r: "0 \<le> a mod k + 1" "a mod k + 1 < k"
    using False by auto
  have "a + 1 = k * (a div k) + (a mod k + 1)"
    using div_mult_mod_eq [of a k] by (simp add: algebra_simps)
  then have "(a + 1) div k = a div k" and "(a + 1) mod k = a mod k + 1"
    using r by (metis int_div_pos_eq, metis int_mod_pos_eq)
  then show ?thesis using \<open>0 \<le> a mod k\<close> by simp
qed

lemma mod_shift: "((y::int) - q * k) mod k = y mod k"
  using mod_mult_self1 [of y "- q" k] by simp

lemma m4: "((y::int) - 1968) mod 4 = 0 \<longleftrightarrow> y mod 4 = 0"
  using mod_shift [of y 492 4] by simp

lemma m100: "((y::int) - 1900) mod 100 = 0 \<longleftrightarrow> y mod 100 = 0"
  using mod_shift [of y 19 100] by simp

lemma m400: "((y::int) - 1600) mod 400 = 0 \<longleftrightarrow> y mod 400 = 0"
  using mod_shift [of y 4 400] by simp

lemma m4_100: "(y::int) mod 100 = 0 \<Longrightarrow> y mod 4 = 0"
proof -
  assume "y mod 100 = 0"
  then have "100 dvd y" by (simp add: dvd_eq_mod_eq_0)
  moreover have "(4::int) dvd 100" by simp
  ultimately have "4 dvd y" by (rule dvd_trans [rotated])
  then show ?thesis by (simp add: dvd_eq_mod_eq_0)
qed

lemma m100_400: "(y::int) mod 400 = 0 \<Longrightarrow> y mod 100 = 0"
proof -
  assume "y mod 400 = 0"
  then have "400 dvd y" by (simp add: dvd_eq_mod_eq_0)
  moreover have "(100::int) dvd 400" by simp
  ultimately have "100 dvd y" by (rule dvd_trans [rotated])
  then show ?thesis by (simp add: dvd_eq_mod_eq_0)
qed

lemma DayFromYear_Suc: "DayFromYear (y + 1) = DayFromYear y + DaysInYear y"
proof -
  define A where "A = (y - 1969) div 4"
  define B where "B = (y - 1901) div 100"
  define C where "C = (y - 1601) div 400"
  have e4: "y - 1969 + 1 = y - 1968" and e100: "y - 1901 + 1 = y - 1900"
    and e400: "y - 1601 + 1 = y - 1600" by simp_all
  have a: "(y - 1968) div 4 = A + (if y mod 4 = 0 then 1 else 0)"
    using div_step [of 4 "y - 1969"] unfolding e4 m4 A_def by simp
  have b: "(y - 1900) div 100 = B + (if y mod 100 = 0 then 1 else 0)"
    using div_step [of 100 "y - 1901"] unfolding e100 m100 B_def by simp
  have c: "(y - 1600) div 400 = C + (if y mod 400 = 0 then 1 else 0)"
    using div_step [of 400 "y - 1601"] unfolding e400 m400 C_def by simp
  have l: "DayFromYear (y + 1) =
          365 * (y - 1969) + (y - 1968) div 4 - (y - 1900) div 100 + (y - 1600) div 400"
    unfolding DayFromYear_def by simp
  have r: "DayFromYear y = 365 * (y - 1970) + A - B + C"
    unfolding DayFromYear_def A_def B_def C_def by simp
  show ?thesis
  proof (cases "y mod 4 = 0")
    case False
    then have "y mod 100 \<noteq> 0" "y mod 400 \<noteq> 0"
      using m4_100 [of y] m100_400 [of y] by auto
    with False show ?thesis unfolding l r a b c DaysInYear_def by simp
  next
    case y4: True
    show ?thesis
    proof (cases "y mod 100 = 0")
      case False
      then have "y mod 400 \<noteq> 0" using m100_400 [of y] by auto
      with y4 False show ?thesis unfolding l r a b c DaysInYear_def by simp
    next
      case y100: True
      show ?thesis
        using y4 y100 unfolding l r a b c DaysInYear_def by (cases "y mod 400 = 0") simp_all
    qed
  qed
qed

lemma DaysInYear_pos: "0 < DaysInYear y"
  by (simp add: DaysInYear_def)

text \<open>
  \<open>YearFromTime t\<close> is the largest year \<open>y\<close> whose first day is not after \<open>t\<close>.
  The search starts at a year that is not after the answer and walks up.
\<close>

function yearUp :: "int \<Rightarrow> int \<Rightarrow> int" where
  "yearUp d y = (if DayFromYear (y + 1) \<le> d then yearUp d (y + 1) else y)"
  by pat_completeness auto
termination
proof (relation "measure (\<lambda>(d, y). nat (d - DayFromYear y))")
  show "wf (measure (\<lambda>(d, y). nat (d - DayFromYear y)))" by simp
next
  fix d y :: int
  assume "DayFromYear (y + 1) \<le> d"
  moreover have "DayFromYear y < DayFromYear (y + 1)"
    using DaysInYear_pos [of y] by (simp add: DayFromYear_Suc)
  ultimately show "((d, y + 1), (d, y)) \<in> measure (\<lambda>(d, y). nat (d - DayFromYear y))"
    by simp
qed

declare yearUp.simps [simp del]

definition yearStart :: "int \<Rightarrow> int" where
  "yearStart d = 1970 + (if 0 \<le> d then d div 366 else d div 365)"

definition YearFromTime :: "int \<Rightarrow> int" where
  "YearFromTime t = yearUp (Day t) (yearStart (Day t))"

definition InLeapYear :: "int \<Rightarrow> int" where
  "InLeapYear t = (if DaysInYear (YearFromTime t) = 366 then 1 else 0)"

definition DayWithinYear :: "int \<Rightarrow> int" where
  "DayWithinYear t = Day t - DayFromYear (YearFromTime t)"

definition MonthFromTime :: "int \<Rightarrow> int" where
  "MonthFromTime t =
     (let d = DayWithinYear t; l = InLeapYear t in
      if d < 31 then 0
      else if d < 59 + l then 1
      else if d < 90 + l then 2
      else if d < 120 + l then 3
      else if d < 151 + l then 4
      else if d < 181 + l then 5
      else if d < 212 + l then 6
      else if d < 243 + l then 7
      else if d < 273 + l then 8
      else if d < 304 + l then 9
      else if d < 334 + l then 10
      else 11)"

definition DateFromTime :: "int \<Rightarrow> int" where
  "DateFromTime t =
     (let d = DayWithinYear t; l = InLeapYear t; m = MonthFromTime t in
      if m = 0 then d + 1
      else if m = 1 then d - 30
      else if m = 2 then d - 58 - l
      else if m = 3 then d - 89 - l
      else if m = 4 then d - 119 - l
      else if m = 5 then d - 150 - l
      else if m = 6 then d - 180 - l
      else if m = 7 then d - 211 - l
      else if m = 8 then d - 242 - l
      else if m = 9 then d - 272 - l
      else if m = 10 then d - 303 - l
      else d - 333 - l)"

definition HourFromTime :: "int \<Rightarrow> int" where
  "HourFromTime t = (t div msPerHour) mod 24"

definition MinFromTime :: "int \<Rightarrow> int" where
  "MinFromTime t = (t div msPerMinute) mod 60"

definition SecFromTime :: "int \<Rightarrow> int" where
  "SecFromTime t = (t div msPerSecond) mod 60"

definition msFromTime :: "int \<Rightarrow> int" where
  "msFromTime t = t mod msPerSecond"

definition MakeTime :: "int \<Rightarrow> int \<Rightarrow> int \<Rightarrow> int \<Rightarrow> int" where
  "MakeTime hour mn sec ms = hour * msPerHour + mn * msPerMinute + sec * msPerSecond + ms"

text \<open>The day number of the first day of month \<open>mn\<close> (0 to 11) in a year.\<close>

definition monthStart :: "int \<Rightarrow> int \<Rightarrow> int" where
  "monthStart mn y =
     (let l = (if DaysInYear y = 366 then 1 else 0) in
      DayFromYear y +
      (if mn = 0 then 0
       else if mn = 1 then 31
       else if mn = 2 then 59 + l
       else if mn = 3 then 90 + l
       else if mn = 4 then 120 + l
       else if mn = 5 then 151 + l
       else if mn = 6 then 181 + l
       else if mn = 7 then 212 + l
       else if mn = 8 then 243 + l
       else if mn = 9 then 273 + l
       else if mn = 10 then 304 + l
       else 334 + l))"

text \<open>
  \<open>MakeDay\<close>: a month outside 0 to 11 carries into the year, a date outside the month
  carries into the neighbouring months.
\<close>

definition MakeDay :: "int \<Rightarrow> int \<Rightarrow> int \<Rightarrow> int" where
  "MakeDay year month dt =
     (let ym = year + month div 12; mn = month mod 12 in
      monthStart mn ym + dt - 1)"

text \<open>The number of days of month \<open>mn\<close> (0 to 11) in year \<open>y\<close>.\<close>

definition DaysInMonth :: "int \<Rightarrow> int \<Rightarrow> int" where
  "DaysInMonth mn y =
     (if mn = 1 then (if DaysInYear y = 366 then 29 else 28)
      else if mn = 3 \<or> mn = 5 \<or> mn = 8 \<or> mn = 10 then 30
      else 31)"

definition MakeDate :: "int \<Rightarrow> int \<Rightarrow> int" where
  "MakeDate day time = day * msPerDay + time"

definition TimeClip :: "int \<Rightarrow> jsdate" where
  "TimeClip time = (if \<bar>time\<bar> > 8640000000000000 then None else Some time)"

definition LocalTime :: "platform \<Rightarrow> int \<Rightarrow> int" where
  "LocalTime P t = t + localTZA P t True"

definition UTC :: "platform \<Rightarrow> int \<Rightarrow> int" where
  "UTC P t = t - localTZA P t False"

text \<open>The methods of \<open>Date.prototype\<close> the source calls, on a valid date \<open>t\<close>.\<close>

definition getDate :: "platform \<Rightarrow> int \<Rightarrow> int" where
  "getDate P t = DateFromTime (LocalTime P t)"

definition setDate :: "platform \<Rightarrow> int \<Rightarrow> int \<Rightarrow> jsdate" where
  "setDate P t dt =
     (let tl = LocalTime P t;
          newDate = MakeDate (MakeDay (YearFromTime tl) (MonthFromTime tl) dt) (TimeWithinDay tl)
      in TimeClip (UTC P newDate))"

definition getHours :: "platform \<Rightarrow> int \<Rightarrow> int" where
  "getHours P t = HourFromTime (LocalTime P t)"

definition setHours :: "platform \<Rightarrow> int \<Rightarrow> int \<Rightarrow> jsdate" where
  "setHours P t h =
     (let tl = LocalTime P t;
          date = MakeDate (Day tl)
                   (MakeTime h (MinFromTime tl) (SecFromTime tl) (msFromTime tl))
      in TimeClip (UTC P date))"

definition getMonth :: "platform \<Rightarrow> int \<Rightarrow> int" where
  "getMonth P t = MonthFromTime (LocalTime P t)"

definition setMonth :: "platform \<Rightarrow> int \<Rightarrow> int \<Rightarrow> jsdate" where
  "setMonth P t m =
     (let tl = LocalTime P t;
          newDate = MakeDate (MakeDay (YearFromTime tl) m (DateFromTime tl)) (TimeWithinDay tl)
      in TimeClip (UTC P newDate))"

section \<open>parseRelativeDate (segment.types.ts)\<close>

definition isDigit :: "char \<Rightarrow> bool" where
  "isDigit c = (c \<in> set ''0123456789'')"

definition digitVal :: "char \<Rightarrow> int" where
  "digitVal c = int (of_char c) - 48"

text \<open>
  \<open>value.match(/^(-?\d+)([dhm])$/)\<close>: the two capture groups, or \<open>None\<close> for
  \<open>null\<close>. The pattern has no flags: \<open>\d\<close> is one of the ten ASCII digits, and
  \<open>^\<close> and \<open>$\<close> are the two ends of the string.
\<close>

definition matchRelative :: "string \<Rightarrow> (string \<times> char) option" where
  "matchRelative s =
     (if s = [] then None
      else let unit = last s; amount = butlast s;
               digits = (case amount of [] \<Rightarrow> [] | c # r \<Rightarrow> if c = CHR ''-'' then r else amount)
           in if unit \<in> set ''dhm'' \<and> digits \<noteq> [] \<and> list_all isDigit digits
              then Some (amount, unit) else None)"

text \<open>\<open>parseInt(match[1], 10)\<close> on a string of the shape \<open>-?\d+\<close>.\<close>

definition parseDigits :: "string \<Rightarrow> int" where
  "parseDigits ds = foldl (\<lambda>acc c. 10 * acc + digitVal c) 0 ds"

definition parseInt10 :: "string \<Rightarrow> int" where
  "parseInt10 s =
     (case s of [] \<Rightarrow> 0
      | c # r \<Rightarrow> if c = CHR ''-'' then - parseDigits r else parseDigits s)"

definition parseRelativeDate :: "platform \<Rightarrow> string \<Rightarrow> jsdate" where
  "parseRelativeDate P v =
     (case matchRelative v of
        None \<Rightarrow> dateParse P v
      | Some (digits, unit) \<Rightarrow>
          let amount = parseInt10 digits in
          if unit = CHR ''d'' then setDate P (now P) (getDate P (now P) + amount)
          else if unit = CHR ''h'' then setHours P (now P) (getHours P (now P) + amount)
          else if unit = CHR ''m'' then setMonth P (now P) (getMonth P (now P) + amount)
          else Some (now P))"

section \<open>Fields, operators and filters (segment.types.ts)\<close>

text \<open>
  \<open>FilterOperator\<close> and \<open>FilterableField\<close> are closed enumerations of string literals.
  At run time a condition carries plain strings, and both \<open>conditionToPrisma\<close> (its
  \<open>default\<close> branch) and \<open>validateFiltersExecutable\<close> (its unknown-field check) look
  at strings outside the enumerations, so \<open>field\<close> and \<open>operator\<close> are strings here.
\<close>

definition FilterOperator :: "string list" where
  "FilterOperator =
     [''eq'', ''neq'', ''gt'', ''gte'', ''lt'', ''lte'', ''in'', ''notIn'',
      ''between'', ''contains'', ''isNull'', ''isNotNull'']"

definition FilterableField :: "string list" where
  "FilterableField =
     [''email'', ''firstName'', ''lastName'', ''phone'',
      ''totalSpent'', ''ordersCount'', ''avgOrderValue'', ''daysSinceLastOrder'',
      ''lastOrderDate'', ''firstOrderDate'', ''shopifyCreatedAt'', ''createdAt'',
      ''recencyScore'', ''frequencyScore'', ''monetaryScore'', ''rfmSegment'',
      ''isHighValue'', ''isChurnRisk'', ''hasAbandonedCart'']"

datatype fieldType = TString | TNumber | TDate | TBoolean | TEnum

definition FieldTypeMap :: "(string \<times> fieldType) list" where
  "FieldTypeMap =
     [(''email'', TString), (''firstName'', TString), (''lastName'', TString),
      (''phone'', TString),
      (''totalSpent'', TNumber), (''ordersCount'', TNumber), (''avgOrderValue'', TNumber),
      (''daysSinceLastOrder'', TNumber), (''recencyScore'', TNumber),
      (''frequencyScore'', TNumber), (''monetaryScore'', TNumber),
      (''lastOrderDate'', TDate), (''firstOrderDate'', TDate), (''shopifyCreatedAt'', TDate),
      (''createdAt'', TDate),
      (''isHighValue'', TBoolean), (''isChurnRisk'', TBoolean), (''hasAbandonedCart'', TBoolean),
      (''rfmSegment'', TEnum)]"

text \<open>\<open>FieldTypeMap[field]\<close>: \<open>None\<close> is \<open>undefined\<close>, for a name that is not a key.\<close>

definition fieldTypeOf :: "string \<Rightarrow> fieldType option" where
  "fieldTypeOf f = map_of FieldTypeMap f"

record FilterCondition =
  field :: string
  operator :: string
  val :: jsvalue

datatype FilterLogic = LogicAND | LogicOR

record FilterGroup =
  logic :: FilterLogic
  conditions :: "FilterCondition list"

record SegmentFilters =
  groups :: "FilterGroup list"

definition validateOperatorForField :: "string \<Rightarrow> string \<Rightarrow> bool" where
  "validateOperatorForField f op =
     (let fieldType = fieldTypeOf f;
          universalOps = [''eq'', ''neq'', ''in'', ''notIn'', ''isNull'', ''isNotNull'']
      in if op \<in> set universalOps then True
         else (case fieldType of
                 Some TNumber \<Rightarrow> op \<in> set [''gt'', ''gte'', ''lt'', ''lte'', ''between'']
               | Some TDate \<Rightarrow> op \<in> set [''gt'', ''gte'', ''lt'', ''lte'', ''between'']
               | Some TString \<Rightarrow> op \<in> set [''contains'']
               | Some TBoolean \<Rightarrow> False
               | Some TEnum \<Rightarrow> False
               | None \<Rightarrow> False))"

section \<open>Translation to a where clause (evaluator.service.ts)\<close>

text \<open>
  The filter object Prisma takes for one field, and the where clause. \<open>FEquals v\<close> is
  \<open>{ [field]: v }\<close>, \<open>FNot v\<close> is \<open>{ [field]: { not: v } }\<close>, \<open>FContains v m\<close> is
  \<open>{ [field]: { contains: v, mode: m } }\<close>. \<open>TenantAND t ws\<close> is the object
  \<open>{ tenantId: t, AND: ws }\<close>.
\<close>

datatype fieldFilter =
    FEquals jsvalue
  | FNot jsvalue
  | FGt jsvalue
  | FGte jsvalue
  | FLt jsvalue
  | FLte jsvalue
  | FIn jsvalue
  | FNotIn jsvalue
  | FContains jsvalue string

datatype whereClause =
    FieldIs string fieldFilter
  | WhereAND "whereClause list"
  | WhereOR "whereClause list"
  | TenantAND string "whereClause list"

datatype error =
    InvalidBetween string
  | UnsupportedOperator string

fun elems :: "jsvalue \<Rightarrow> jsvalue list" where
  "elems (JArr vs) = vs"
| "elems v = []"

text \<open>\<open>typeof v === 'string' ? parseRelativeDate(v) : v\<close>\<close>

fun resolveDate :: "platform \<Rightarrow> jsvalue \<Rightarrow> jsvalue" where
  "resolveDate P (JStr s) = JDate (parseRelativeDate P s)"
| "resolveDate P v = v"

text \<open>
  The source reads the clock in every call of \<open>parseRelativeDate\<close>; the readings of one
  translation are taken to be the one instant \<open>now P\<close>.
\<close>

definition processValue :: "platform \<Rightarrow> fieldType option \<Rightarrow> jsvalue \<Rightarrow> jsvalue" where
  "processValue P fieldType v =
     (let processedValue = v;
          processedValue =
            (if fieldType = Some TDate \<and> isString v then resolveDate P v else processedValue);
          processedValue =
            (if fieldType = Some TDate \<and> isArray v then JArr (map (resolveDate P) (elems v))
             else processedValue)
      in processedValue)"

definition conditionToPrisma :: "platform \<Rightarrow> FilterCondition \<Rightarrow> error + whereClause" where
  "conditionToPrisma P condition =
     (let f = field condition; op = operator condition; v = val condition;
          fieldType = fieldTypeOf f
      in if op = ''isNull'' then Inr (FieldIs f (FEquals JNull))
         else if op = ''isNotNull'' then Inr (FieldIs f (FNot JNull))
         else
           let processedValue = processValue P fieldType v
           in if op = ''eq'' then Inr (FieldIs f (FEquals processedValue))
              else if op = ''neq'' then Inr (FieldIs f (FNot processedValue))
              else if op = ''gt'' then Inr (FieldIs f (FGt processedValue))
              else if op = ''gte'' then Inr (FieldIs f (FGte processedValue))
              else if op = ''lt'' then Inr (FieldIs f (FLt processedValue))
              else if op = ''lte'' then Inr (FieldIs f (FLte processedValue))
              else if op = ''in'' then Inr (FieldIs f (FIn processedValue))
              else if op = ''notIn'' then Inr (FieldIs f (FNotIn processedValue))
              else if op = ''between'' then
                (if isArray processedValue \<and> length (elems processedValue) = 2
                 then Inr (WhereAND
                        [FieldIs f (FGte (elems processedValue ! 0)),
                         FieldIs f (FLte (elems processedValue ! 1))])
                 else Inl (InvalidBetween f))
              else if op = ''contains'' then
                Inr (FieldIs f (FContains processedValue ''insensitive''))
              else Inl (UnsupportedOperator op))"

text \<open>\<open>xs.map(f)\<close> where \<open>f\<close> may throw: the first exception, in order, ends the map.\<close>

fun mapE :: "('a \<Rightarrow> error + 'b) \<Rightarrow> 'a list \<Rightarrow> error + 'b list" where
  "mapE f [] = Inr []"
| "mapE f (x # xs) =
     (case f x of
        Inl e \<Rightarrow> Inl e
      | Inr y \<Rightarrow> (case mapE f xs of Inl e \<Rightarrow> Inl e | Inr ys \<Rightarrow> Inr (y # ys)))"

definition filterGroupToPrisma :: "platform \<Rightarrow> FilterGroup \<Rightarrow> error + whereClause" where
  "filterGroupToPrisma P grp =
     (case mapE (conditionToPrisma P) (conditions grp) of
        Inl e \<Rightarrow> Inl e
      | Inr cs \<Rightarrow> if logic grp = LogicAND then Inr (WhereAND cs) else Inr (WhereOR cs))"

definition filtersToPrismaWhere :: "platform \<Rightarrow> string \<Rightarrow> SegmentFilters \<Rightarrow> error + whereClause" where
  "filtersToPrismaWhere P tenant filters =
     (case mapE (filterGroupToPrisma P) (groups filters) of
        Inl e \<Rightarrow> Inl e
      | Inr groupClauses \<Rightarrow> Inr (TenantAND tenant groupClauses))"

section \<open>The customer table and its query engine\<close>

text \<open>
  \<open>EvaluationResult\<close> and \<open>CustomerPreview\<close> are the interfaces of the source;
  \<open>SegmentPreview\<close> is the result type of \<open>previewSegmentCustomers\<close>. A row of the
  customer table has the selected columns and its tenant; the columns the evaluator
  never reads by name are left out. \<open>Number(c.totalSpent)\<close> turns the stored decimal
  into a number; both are rationals here and the conversion is the identity.
\<close>

record EvaluationResult =
  customerIds :: "string list"
  totalCount :: nat
  totalSpent :: rat
  evaluatedAt :: int

record CustomerPreview =
  id' :: string
  email :: "string option"
  firstName :: "string option"
  lastName :: "string option"
  totalSpent :: rat
  ordersCount :: int
  rfmSegment :: "string option"

record customer = CustomerPreview +
  tenantId :: string

record SegmentPreview =
  customers :: "CustomerPreview list"
  totalCount :: nat
  estimatedRevenue :: rat

text \<open>
  Modelled from the spec: the persistence engine behind \<open>prisma.customer\<close>
  (\<open>config/database\<close> and the Prisma client) is not part of the sources. Section 6 of
  the spec gives its contract: \<open>findMany(predicate)\<close> with \<open>select\<close>, \<open>orderBy\<close> and
  \<open>take\<close>, \<open>aggregate(predicate)\<close> giving a count and a sum, \<open>count(predicate)\<close>; the
  predicate is a nesting of AND/OR groups of field-level comparisons. The engine is the
  in-memory filter the spec allows, over a list of rows. How one row answers one
  field-level comparison is the parameter \<open>ev\<close>. Rows of equal spend keep their table
  order under \<open>orderBy\<close>. The sum over no rows is \<open>null\<close> (\<open>None\<close>).
  \<open>matches\<close> is the engine's reading of a where clause: \<open>AND\<close> asks for all of its
  clauses, \<open>OR\<close> for one of them, and the keys of one object hold together.
\<close>

fun matches :: "(customer \<Rightarrow> string \<Rightarrow> fieldFilter \<Rightarrow> bool) \<Rightarrow> customer \<Rightarrow> whereClause \<Rightarrow> bool" where
  "matches ev c (FieldIs f ff) = ev c f ff"
| "matches ev c (WhereAND ws) = list_all (matches ev c) ws"
| "matches ev c (WhereOR ws) = list_ex (matches ev c) ws"
| "matches ev c (TenantAND t ws) = (tenantId c = t \<and> list_all (matches ev c) ws)"

text \<open>Modelled from the spec: \<open>findMany\<close> of the persistence engine, the rows that
  satisfy the predicate, in table order.\<close>

definition findMany :: "(customer \<Rightarrow> string \<Rightarrow> fieldFilter \<Rightarrow> bool) \<Rightarrow> customer list \<Rightarrow> whereClause \<Rightarrow> customer list" where
  "findMany ev table w = filter (\<lambda>c. matches ev c w) table"

text \<open>Modelled from the spec: \<open>orderBy: { totalSpent: 'desc' }\<close> of the persistence
  engine.\<close>

definition orderByTotalSpentDesc :: "customer list \<Rightarrow> customer list" where
  "orderByTotalSpentDesc cs = sort_key (\<lambda>c. - CustomerPreview.totalSpent c) cs"

text \<open>Modelled from the spec: \<open>aggregate\<close> of the persistence engine, its count and
  its sum of \<open>totalSpent\<close>.\<close>

definition aggregateCount :: "(customer \<Rightarrow> string \<Rightarrow> fieldFilter \<Rightarrow> bool) \<Rightarrow> customer list \<Rightarrow> whereClause \<Rightarrow> nat" where
  "aggregateCount ev table w = length (findMany ev table w)"

definition aggregateSum :: "(customer \<Rightarrow> string \<Rightarrow> fieldFilter \<Rightarrow> bool) \<Rightarrow> customer list \<Rightarrow> whereClause \<Rightarrow> rat option" where
  "aggregateSum ev table w =
     (let rows = findMany ev table w in
      if rows = [] then None else Some (sum_list (map CustomerPreview.totalSpent rows)))"

text \<open>\<open>x ?? 0\<close>\<close>

fun orZero :: "rat option \<Rightarrow> rat" where
  "orZero None = 0"
| "orZero (Some x) = x"

section \<open>Evaluation (evaluator.service.ts)\<close>

text \<open>
  The source issues the two reads of an evaluation concurrently and outside a
  transaction: \<open>tableF\<close> is the table as \<open>findMany\<close> sees it, \<open>tableA\<close> the table as
  \<open>aggregate\<close> sees it. An exception of the translation ends the call (\<open>Inl\<close>).
  \<open>take: limit\<close> takes a count of rows: \<open>limit\<close> is a natural number
  (\<open>PreviewSegmentRequest\<close> bounds it to 1..100).
\<close>

definition evaluateSegment ::
  "platform \<Rightarrow> (customer \<Rightarrow> string \<Rightarrow> fieldFilter \<Rightarrow> bool) \<Rightarrow> customer list \<Rightarrow> customer list \<Rightarrow>
   string \<Rightarrow> SegmentFilters \<Rightarrow> error + EvaluationResult" where
  "evaluateSegment P ev tableF tableA tenant filters =
     (case filtersToPrismaWhere P tenant filters of
        Inl e \<Rightarrow> Inl e
      | Inr whereClause \<Rightarrow>
          let found = findMany ev tableF whereClause in
          Inr \<lparr> customerIds = map id' found,
                EvaluationResult.totalCount = aggregateCount ev tableA whereClause,
                EvaluationResult.totalSpent = orZero (aggregateSum ev tableA whereClause),
                evaluatedAt = now P \<rparr>)"

definition countMatchingCustomers ::
  "platform \<Rightarrow> (customer \<Rightarrow> string \<Rightarrow> fieldFilter \<Rightarrow> bool) \<Rightarrow> customer list \<Rightarrow>
   string \<Rightarrow> SegmentFilters \<Rightarrow> error + nat" where
  "countMatchingCustomers P ev table tenant filters =
     (case filtersToPrismaWhere P tenant filters of
        Inl e \<Rightarrow> Inl e
      | Inr whereClause \<Rightarrow> Inr (length (findMany ev table whereClause)))"

definition previewSegmentCustomers ::
  "platform \<Rightarrow> (customer \<Rightarrow> string \<Rightarrow> fieldFilter \<Rightarrow> bool) \<Rightarrow> customer list \<Rightarrow> customer list \<Rightarrow>
   string \<Rightarrow> SegmentFilters \<Rightarrow> nat \<Rightarrow> error + SegmentPreview" where
  "previewSegmentCustomers P ev tableF tableA tenant filters limit =
     (case filtersToPrismaWhere P tenant filters of
        Inl e \<Rightarrow> Inl e
      | Inr whereClause \<Rightarrow>
          let found = take limit (orderByTotalSpentDesc (findMany ev tableF whereClause)) in
          Inr \<lparr> customers = map CustomerPreview.truncate found,
                totalCount = aggregateCount ev tableA whereClause,
                estimatedRevenue = orZero (aggregateSum ev tableA whereClause) \<rparr>)"

text \<open>The clause of a group: \<open>{ AND: cs }\<close> or \<open>{ OR: cs }\<close>.\<close>

definition groupClause :: "FilterLogic \<Rightarrow> whereClause list \<Rightarrow> whereClause" where
  "groupClause l cs = (case l of LogicAND \<Rightarrow> WhereAND cs | LogicOR \<Rightarrow> WhereOR cs)"

text \<open>
  The composition in the words of the specification: a row satisfies a filter set when
  it belongs to the tenant and satisfies every group; it satisfies a group of logic AND
  when it satisfies every condition of the group, a group of logic OR when it satisfies
  one of them; it satisfies a condition when it satisfies the condition's translation.
\<close>

definition condition_holds ::
  "platform \<Rightarrow> (customer \<Rightarrow> string \<Rightarrow> fieldFilter \<Rightarrow> bool) \<Rightarrow> customer \<Rightarrow> FilterCondition \<Rightarrow> bool" where
  "condition_holds P ev r c =
     (case conditionToPrisma P c of Inl e \<Rightarrow> False | Inr w \<Rightarrow> matches ev r w)"

definition spec_group_holds ::
  "platform \<Rightarrow> (customer \<Rightarrow> string \<Rightarrow> fieldFilter \<Rightarrow> bool) \<Rightarrow> customer \<Rightarrow> FilterGroup \<Rightarrow> bool" where
  "spec_group_holds P ev r g =
     (case logic g of
        LogicAND \<Rightarrow> list_all (condition_holds P ev r) (conditions g)
      | LogicOR \<Rightarrow> list_ex (condition_holds P ev r) (conditions g))"

definition spec_filters_hold ::
  "platform \<Rightarrow> (customer \<Rightarrow> string \<Rightarrow> fieldFilter \<Rightarrow> bool) \<Rightarrow> customer \<Rightarrow> string \<Rightarrow> SegmentFilters \<Rightarrow> bool" where
  "spec_filters_hold P ev r tenant F =
     (tenantId r = tenant \<and> list_all (spec_group_holds P ev r) (groups F))"

text \<open>The rows of one tenant.\<close>

definition ofTenant :: "string \<Rightarrow> customer list \<Rightarrow> customer list" where
  "ofTenant tenant table = filter (\<lambda>r. tenantId r = tenant) table"

section \<open>Validation (evaluator.service.ts)\<close>

definition quoted :: "string \<Rightarrow> string" where
  "quoted s = [CHR 0x27] @ s @ [CHR 0x27]"

text \<open>The five messages (template strings of the source).\<close>

definition msgUnknownField :: "string \<Rightarrow> string" where
  "msgUnknownField f = ''Unknown field: '' @ f"

definition msgBetween :: "string \<Rightarrow> string" where
  "msgBetween f = ''Field '' @ f @ '': '' @ quoted ''between'' @ '' requires array of 2 values''"

definition msgArray :: "string \<Rightarrow> string \<Rightarrow> string" where
  "msgArray f op = ''Field '' @ f @ '': '' @ quoted op @ '' requires array value''"

definition msgContains :: "string \<Rightarrow> string" where
  "msgContains f = ''Field '' @ f @ '': '' @ quoted ''contains'' @ '' only valid for string fields''"

definition msgOrdering :: "string \<Rightarrow> string \<Rightarrow> string" where
  "msgOrdering f op = ''Field '' @ f @ '': '' @ quoted op @ '' only valid for number/date fields''"

text \<open>The body of the inner loop: the errors after one condition is checked.\<close>

definition checkCondition :: "string list \<Rightarrow> FilterCondition \<Rightarrow> string list" where
  "checkCondition errors condition =
     (let validFields = map fst FieldTypeMap in
      if field condition \<notin> set validFields
      then errors @ [msgUnknownField (field condition)]
      else
        let fieldType = fieldTypeOf (field condition);
            op = operator condition; v = val condition;
            errors =
              (if op = ''between'' \<and> (\<not> isArray v \<or> length (elems v) \<noteq> 2)
               then errors @ [msgBetween (field condition)]
               else errors);
            errors =
              (if op \<in> set [''in'', ''notIn''] \<and> \<not> isArray v
               then errors @ [msgArray (field condition) op]
               else errors);
            errors =
              (if op = ''contains'' \<and> fieldType \<noteq> Some TString
               then errors @ [msgContains (field condition)]
               else errors);
            errors =
              (if op \<in> set [''gt'', ''gte'', ''lt'', ''lte'']
                  \<and> fieldType \<noteq> Some TNumber \<and> fieldType \<noteq> Some TDate
               then errors @ [msgOrdering (field condition) op]
               else errors)
        in errors)"

record ValidationResult =
  valid :: bool
  errors :: "string list"

definition validateFiltersExecutable :: "SegmentFilters \<Rightarrow> ValidationResult" where
  "validateFiltersExecutable filters =
     (let errs = foldl (\<lambda>errs grp. foldl checkCondition errs (conditions grp)) [] (groups filters)
      in \<lparr> valid = (length errs = 0), errors = errs \<rparr>)"

text \<open>The conditions of a filter set in the order the two loops visit them.\<close>

definition allConditions :: "SegmentFilters \<Rightarrow> FilterCondition list" where
  "allConditions filters = concat (map conditions (groups filters))"

text \<open>
  The compatibility table in the words of the specification: a condition violates it
  when its field is not a known field, when \<open>between\<close> has a value that is not an
  array of exactly two elements, when \<open>in\<close> or \<open>notIn\<close> has a value that is not a
  non-empty array, when \<open>contains\<close> stands on a field that is not string-typed, or when
  an ordering operator (\<open>gt\<close>, \<open>gte\<close>, \<open>lt\<close>, \<open>lte\<close>, \<open>between\<close>) stands on a field
  that is neither number- nor date-typed.
\<close>

definition spec_violation :: "FilterCondition \<Rightarrow> bool" where
  "spec_violation c =
     (field c \<notin> set FilterableField
      \<or> (operator c = ''between'' \<and> \<not> (isArray (val c) \<and> length (elems (val c)) = 2))
      \<or> (operator c \<in> set [''in'', ''notIn''] \<and> \<not> (isArray (val c) \<and> elems (val c) \<noteq> []))
      \<or> (operator c = ''contains'' \<and> fieldTypeOf (field c) \<noteq> Some TString)
      \<or> (operator c \<in> set [''gt'', ''gte'', ''lt'', ''lte'', ''between'']
           \<and> fieldTypeOf (field c) \<noteq> Some TNumber \<and> fieldTypeOf (field c) \<noteq> Some TDate))"

text \<open>
  The table as \<open>validateFiltersExecutable\<close> checks it: \<open>in\<close> and \<open>notIn\<close> need an
  array, empty or not, and the type check of the ordering operators covers \<open>gt\<close>,
  \<open>gte\<close>, \<open>lt\<close> and \<open>lte\<close>.
\<close>

definition checked_violation :: "FilterCondition \<Rightarrow> bool" where
  "checked_violation c =
     (field c \<notin> set FilterableField
      \<or> (operator c = ''between'' \<and> \<not> (isArray (val c) \<and> length (elems (val c)) = 2))
      \<or> (operator c \<in> set [''in'', ''notIn''] \<and> \<not> isArray (val c))
      \<or> (operator c = ''contains'' \<and> fieldTypeOf (field c) \<noteq> Some TString)
      \<or> (operator c \<in> set [''gt'', ''gte'', ''lt'', ''lte'']
           \<and> fieldTypeOf (field c) \<noteq> Some TNumber \<and> fieldTypeOf (field c) \<noteq> Some TDate))"

section \<open>Segment diff (evaluator.service.ts)\<close>

text \<open>\<open>new Set(ids)\<close> is the set of the ids, \<open>has\<close> is membership.\<close>

record EvaluationDiff =
  added :: "string list"
  removed :: "string list"
  unchanged :: "string list"

definition diffEvaluations :: "EvaluationResult \<Rightarrow> EvaluationResult \<Rightarrow> EvaluationDiff" where
  "diffEvaluations previous current =
     (let previousSet = set (customerIds previous);
          currentSet = set (customerIds current)
      in \<lparr> added = filter (\<lambda>i. i \<notin> previousSet) (customerIds current),
            removed = filter (\<lambda>i. i \<notin> currentSet) (customerIds previous),
            unchanged = filter (\<lambda>i. i \<in> previousSet) (customerIds current) \<rparr>)"

section \<open>Example inputs\<close>

text \<open>A platform for the examples: noon UTC of 31 March 2023, local time UTC, a string
  parser that rejects every string.\<close>

definition examplePlatform :: platform where
  "examplePlatform =
     \<lparr> now = 1680264000000, localTZA = (\<lambda>t isUTC. 0), dateParse = (\<lambda>s. None) \<rparr>"

text \<open>The same platform with a parser that, like the parsers of the JavaScript engines,
  also reads a date that is not written in ISO 8601.\<close>

definition lenientPlatform :: platform where
  "lenientPlatform =
     \<lparr> now = 1680264000000, localTZA = (\<lambda>t isUTC. 0),
       dateParse = (\<lambda>s. if s = ''March 7, 2020'' then Some 1583539200000 else None) \<rparr>"

text \<open>
  The same clock in a zone with daylight saving, as New York's around March 2023: five
  hours behind UTC until 12 March 2023, 07:00 UTC (local 02:00, which becomes 03:00),
  four hours behind from then on. A local time in the skipped hour is read with the
  offset before the change, as ECMA-262 asks.
\<close>

definition newYorkPlatform :: platform where
  "newYorkPlatform =
     \<lparr> now = 1680264000000,
       localTZA = (\<lambda>t isUTC.
                    if isUTC then (if t < 1678604400000 then - 18000000 else - 14400000)
                    else (if t < 1678590000000 then - 18000000 else - 14400000)),
       dateParse = (\<lambda>s. None) \<rparr>"

text \<open>Filter sets for the examples of the validator.\<close>

definition single :: "FilterCondition \<Rightarrow> SegmentFilters" where
  "single c = \<lparr> groups = [\<lparr> logic = LogicAND, conditions = [c] \<rparr>] \<rparr>"


definition exampleEmptyIn :: FilterCondition where
  "exampleEmptyIn = \<lparr> field = ''email'', operator = ''in'', val = JArr [] \<rparr>"

definition exampleBetweenFlag :: FilterCondition where
  "exampleBetweenFlag =
     \<lparr> field = ''isHighValue'', operator = ''between'', val = JArr [JNum 1, JNum 2] \<rparr>"



definition exampleContainsNumber :: FilterCondition where
  "exampleContainsNumber =
     \<lparr> field = ''totalSpent'', operator = ''contains'', val = JStr ''a'' \<rparr>"

text \<open>A snapshot with the given members.\<close>

definition exampleSnapshot :: "string list \<Rightarrow> EvaluationResult" where
  "exampleSnapshot ids =
     \<lparr> customerIds = ids, EvaluationResult.totalCount = length ids,
       EvaluationResult.totalSpent = 0, evaluatedAt = 0 \<rparr>"

text \<open>The filter set of the comment on \<open>SegmentFilters\<close> in segment.types.ts.\<close>

definition exampleFilters :: SegmentFilters where
  "exampleFilters =
     \<lparr> groups =
         [\<lparr> logic = LogicAND,
            conditions = [\<lparr> field = ''totalSpent'', operator = ''gt'', val = JNum 100 \<rparr>] \<rparr>,
          \<lparr> logic = LogicOR,
            conditions =
              [\<lparr> field = ''rfmSegment'', operator = ''in'',
                 val = JArr [JStr ''CHAMPIONS'', JStr ''LOYAL''] \<rparr>,
               \<lparr> field = ''isHighValue'', operator = ''eq'', val = JBool True \<rparr>] \<rparr>] \<rparr>"

text \<open>A table with rows of two tenants, a filter on the spend, and a field-level
  evaluation that knows the comparison "\<open>totalSpent\<close> greater than a number".\<close>

fun spendAbove :: "customer \<Rightarrow> string \<Rightarrow> fieldFilter \<Rightarrow> bool" where
  "spendAbove c f (FGt (JNum n)) = (f = ''totalSpent'' \<and> n < CustomerPreview.totalSpent c)"
| "spendAbove c f ff = False"

definition exampleRow :: "string \<Rightarrow> string \<Rightarrow> rat \<Rightarrow> customer" where
  "exampleRow i t s =
     \<lparr> id' = i, email = None, firstName = None, lastName = None, totalSpent = s,
       ordersCount = 1, rfmSegment = None, tenantId = t \<rparr>"

definition exampleTable :: "customer list" where
  "exampleTable =
     [exampleRow ''c1'' ''t1'' 150, exampleRow ''c2'' ''t2'' 200,
      exampleRow ''c3'' ''t1'' 50, exampleRow ''c4'' ''t1'' 300]"

definition exampleSpendFilter :: SegmentFilters where
  "exampleSpendFilter = single \<lparr> field = ''totalSpent'', operator = ''gt'', val = JNum 100 \<rparr>"

section \<open>Properties of the translator\<close>

lemma isArray_processValue: "isArray (processValue P ft v) = isArray v"
  by (cases v) (simp_all add: processValue_def)

lemma length_elems_processValue: "length (elems (processValue P ft v)) = length (elems v)"
  by (cases v) (simp_all add: processValue_def)

lemma processValue_not_date: "ft \<noteq> Some TDate \<Longrightarrow> processValue P ft v = v"
  by (simp add: processValue_def)

lemma processValue_pair:
  "processValue P ft (JArr [a, b]) =
     JArr [if ft = Some TDate then resolveDate P a else a,
           if ft = Some TDate then resolveDate P b else b]"
  by (simp add: processValue_def)

text \<open>
  C9. \<open>isNull\<close> and \<open>isNotNull\<close> ignore the supplied value: whatever the field, the
  two values (absent included, \<open>JUndefined\<close>) and the clock, the translation of
  \<open>isNull\<close> is the predicate "field is null" and the translation of \<open>isNotNull\<close> is
  "field is not null".
\<close>

theorem null_checks_ignore_value:
  "conditionToPrisma P \<lparr>field = f, operator = ''isNull'', val = v1\<rparr>
     = conditionToPrisma P' \<lparr>field = f, operator = ''isNull'', val = v2\<rparr>
   \<and> conditionToPrisma P \<lparr>field = f, operator = ''isNull'', val = v1\<rparr>
     = Inr (FieldIs f (FEquals JNull))
   \<and> conditionToPrisma P \<lparr>field = f, operator = ''isNotNull'', val = v1\<rparr>
     = conditionToPrisma P' \<lparr>field = f, operator = ''isNotNull'', val = v2\<rparr>
   \<and> conditionToPrisma P \<lparr>field = f, operator = ''isNotNull'', val = v1\<rparr>
     = Inr (FieldIs f (FNot JNull))"
  by (simp add: conditionToPrisma_def)

text \<open>
  C10. A condition whose operator is one of the twelve enumerated operators and is not
  \<open>between\<close> translates without an error. On an enumerated operator the only error is
  the one of \<open>between\<close> with a value that is not an array of exactly two elements; the
  unsupported-operator error never arises.
\<close>

theorem enumerated_operators_translate:
  assumes "operator c \<in> set FilterOperator"
  shows "(operator c \<noteq> ''between'' \<longrightarrow> (\<exists>w. conditionToPrisma P c = Inr w))
       \<and> (\<forall>e. conditionToPrisma P c = Inl e \<longrightarrow>
              e = InvalidBetween (field c) \<and> operator c = ''between''
              \<and> \<not> (isArray (val c) \<and> length (elems (val c)) = 2))
       \<and> (\<forall>x. conditionToPrisma P c \<noteq> Inl (UnsupportedOperator x))"
  using assms
  by (auto simp: FilterOperator_def conditionToPrisma_def Let_def
        isArray_processValue length_elems_processValue)

theorem enumerated_operators_translate_witness:
  "operator \<lparr>field = ''totalSpent'', operator = ''gt'', val = JNum 100\<rparr> \<in> set FilterOperator
   \<and> (\<exists>w. conditionToPrisma examplePlatform
              \<lparr>field = ''totalSpent'', operator = ''gt'', val = JNum 100\<rparr> = Inr w)"
  using enumerated_operators_translate
          [of "\<lparr>field = ''totalSpent'', operator = ''gt'', val = JNum 100\<rparr>" examplePlatform]
  by (simp add: FilterOperator_def)

text \<open>
  C4. A \<open>between\<close> condition with a value \<open>[a, b]\<close> translates to the conjunction of
  "field \<open>\<ge>\<close> a" and "field \<open>\<le>\<close> b", which a row satisfies exactly when it satisfies
  both comparisons; with any other value the translation fails with the invalid-between
  error. On a date-typed field a bound that is a string stands for the date it resolves
  to (\<open>resolveDate\<close>); on every other field the bounds are \<open>a\<close> and \<open>b\<close> as given.
\<close>

theorem between_translation:
  assumes "operator c = ''between''"
  shows "(\<forall>a b. val c = JArr [a, b] \<longrightarrow>
            (let lo = (if fieldTypeOf (field c) = Some TDate then resolveDate P a else a);
                 hi = (if fieldTypeOf (field c) = Some TDate then resolveDate P b else b)
             in conditionToPrisma P c
                  = Inr (WhereAND [FieldIs (field c) (FGte lo), FieldIs (field c) (FLte hi)])
                \<and> (\<forall>ev r. matches ev r
                              (WhereAND [FieldIs (field c) (FGte lo), FieldIs (field c) (FLte hi)])
                            = (ev r (field c) (FGte lo) \<and> ev r (field c) (FLte hi)))))
       \<and> ((\<nexists>a b. val c = JArr [a, b]) \<longrightarrow>
            conditionToPrisma P c = Inl (InvalidBetween (field c)))"
proof (intro conjI allI impI)
  fix a b
  assume v: "val c = JArr [a, b]"
  show "let lo = (if fieldTypeOf (field c) = Some TDate then resolveDate P a else a);
            hi = (if fieldTypeOf (field c) = Some TDate then resolveDate P b else b)
        in conditionToPrisma P c
             = Inr (WhereAND [FieldIs (field c) (FGte lo), FieldIs (field c) (FLte hi)])
           \<and> (\<forall>ev r. matches ev r
                         (WhereAND [FieldIs (field c) (FGte lo), FieldIs (field c) (FLte hi)])
                       = (ev r (field c) (FGte lo) \<and> ev r (field c) (FLte hi)))"
    using assms v by (simp add: conditionToPrisma_def processValue_pair Let_def)
next
  assume n: "\<nexists>a b. val c = JArr [a, b]"
  have "\<not> (isArray (val c) \<and> length (elems (val c)) = 2)"
  proof
    assume h: "isArray (val c) \<and> length (elems (val c)) = 2"
    then obtain vs where vs: "val c = JArr vs" by (cases "val c") auto
    with h have "length vs = 2" by simp
    then obtain a b where "vs = [a, b]"
      by (metis One_nat_def Suc_1 length_0_conv length_Suc_conv)
    with vs n show False by blast
  qed
  then show "conditionToPrisma P c = Inl (InvalidBetween (field c))"
    using assms
    by (auto simp: conditionToPrisma_def Let_def isArray_processValue length_elems_processValue)
qed

theorem between_translation_witness:
  "operator \<lparr>field = ''totalSpent'', operator = ''between'', val = JArr [JNum 10, JNum 20]\<rparr>
     = ''between''
   \<and> conditionToPrisma examplePlatform
        \<lparr>field = ''totalSpent'', operator = ''between'', val = JArr [JNum 10, JNum 20]\<rparr>
       = Inr (WhereAND [FieldIs ''totalSpent'' (FGte (JNum 10)),
                        FieldIs ''totalSpent'' (FLte (JNum 20))])
   \<and> conditionToPrisma examplePlatform
        \<lparr>field = ''totalSpent'', operator = ''between'', val = JArr [JNum 10]\<rparr>
       = Inl (InvalidBetween ''totalSpent'')"
  using between_translation
          [of "\<lparr>field = ''totalSpent'', operator = ''between'', val = JArr [JNum 10, JNum 20]\<rparr>"
              examplePlatform]
        between_translation
          [of "\<lparr>field = ''totalSpent'', operator = ''between'', val = JArr [JNum 10]\<rparr>"
              examplePlatform]
  by (simp add: fieldTypeOf_def FieldTypeMap_def)

section \<open>Properties of the validator\<close>

text \<open>The keys of the type map are the enumerated fields.\<close>

lemma keys_FieldTypeMap: "set (map fst FieldTypeMap) = set FilterableField"
  unfolding FieldTypeMap_def FilterableField_def by (simp add: insert_commute)

lemma checkCondition_append: "checkCondition errs c = errs @ checkCondition [] c"
  by (simp add: checkCondition_def Let_def)

lemma foldl_checkCondition:
  "foldl checkCondition errs cs = errs @ concat (map (checkCondition []) cs)"
proof (induction cs arbitrary: errs)
  case Nil
  show ?case by simp
next
  case (Cons c cs)
  have "foldl checkCondition errs (c # cs) = foldl checkCondition (checkCondition errs c) cs"
    by simp
  also have "\<dots> = checkCondition errs c @ concat (map (checkCondition []) cs)"
    by (rule Cons.IH)
  also have "\<dots> = errs @ concat (map (checkCondition []) (c # cs))"
    using checkCondition_append [of errs c] by simp
  finally show ?case .
qed

lemma foldl_groups:
  "foldl (\<lambda>errs grp. foldl checkCondition errs (conditions grp)) errs gs
     = errs @ concat (map (checkCondition []) (concat (map conditions gs)))"
  by (induction gs arbitrary: errs) (simp_all add: foldl_checkCondition)

lemma errors_validateFiltersExecutable:
  "errors (validateFiltersExecutable F) = concat (map (checkCondition []) (allConditions F))"
  by (simp add: validateFiltersExecutable_def allConditions_def foldl_groups Let_def)

lemma valid_validateFiltersExecutable:
  "valid (validateFiltersExecutable F) = (errors (validateFiltersExecutable F) = [])"
  by (simp add: validateFiltersExecutable_def Let_def)

lemma checkCondition_empty_iff: "checkCondition [] c = [] \<longleftrightarrow> \<not> checked_violation c"
  unfolding checkCondition_def checked_violation_def Let_def keys_FieldTypeMap
  by auto

lemma valid_iff_no_checked_violation:
  "valid (validateFiltersExecutable F) \<longleftrightarrow> (\<forall>c \<in> set (allConditions F). \<not> checked_violation c)"
  by (simp add: valid_validateFiltersExecutable errors_validateFiltersExecutable
        checkCondition_empty_iff)


lemma checkCondition_messages:
  "field c \<notin> set FilterableField \<Longrightarrow> checkCondition [] c = [msgUnknownField (field c)]"
  "field c \<in> set FilterableField \<Longrightarrow> operator c = ''between''
     \<Longrightarrow> \<not> (isArray (val c) \<and> length (elems (val c)) = 2)
     \<Longrightarrow> checkCondition [] c = [msgBetween (field c)]"
  "field c \<in> set FilterableField \<Longrightarrow> operator c \<in> set [''in'', ''notIn'']
     \<Longrightarrow> \<not> isArray (val c)
     \<Longrightarrow> checkCondition [] c = [msgArray (field c) (operator c)]"
  "field c \<in> set FilterableField \<Longrightarrow> operator c = ''contains''
     \<Longrightarrow> fieldTypeOf (field c) \<noteq> Some TString
     \<Longrightarrow> checkCondition [] c = [msgContains (field c)]"
  "field c \<in> set FilterableField \<Longrightarrow> operator c \<in> set [''gt'', ''gte'', ''lt'', ''lte'']
     \<Longrightarrow> fieldTypeOf (field c) \<noteq> Some TNumber \<Longrightarrow> fieldTypeOf (field c) \<noteq> Some TDate
     \<Longrightarrow> checkCondition [] c = [msgOrdering (field c) (operator c)]"
  unfolding checkCondition_def Let_def keys_FieldTypeMap
  by auto

lemma condition_errors_reported:
  "c \<in> set (allConditions F) \<Longrightarrow>
     set (checkCondition [] c) \<subseteq> set (errors (validateFiltersExecutable F))"
  by (auto simp: errors_validateFiltersExecutable)





text \<open>
  The table the validator checks is part of the specified table; what is missing is an
  empty array under \<open>in\<close>/\<open>notIn\<close> and \<open>between\<close> on a field that is neither
  number- nor date-typed.
\<close>

lemma checked_violation_imp_spec: "checked_violation c \<Longrightarrow> spec_violation c"
  unfolding checked_violation_def spec_violation_def by auto

lemma spec_violation_gap:
  "spec_violation c \<longleftrightarrow>
     checked_violation c
     \<or> (operator c \<in> set [''in'', ''notIn''] \<and> val c = JArr [])
     \<or> (operator c = ''between''
         \<and> fieldTypeOf (field c) \<noteq> Some TNumber \<and> fieldTypeOf (field c) \<noteq> Some TDate)"
proof -
  have e: "isArray (val c) \<and> elems (val c) = [] \<longleftrightarrow> val c = JArr []"
    by (cases "val c") auto
  show ?thesis
    unfolding checked_violation_def spec_violation_def using e by auto
qed

text \<open>
  C3, as stated, fails: an empty array under \<open>in\<close> and \<open>between\<close> on a boolean field
  violate the specified table, and \<open>validateFiltersExecutable\<close> reports nothing for
  either.
\<close>

theorem validation_misses_spec_violations:
  "spec_violation exampleEmptyIn
   \<and> valid (validateFiltersExecutable (single exampleEmptyIn))
   \<and> errors (validateFiltersExecutable (single exampleEmptyIn)) = []
   \<and> spec_violation exampleBetweenFlag
   \<and> valid (validateFiltersExecutable (single exampleBetweenFlag))
   \<and> errors (validateFiltersExecutable (single exampleBetweenFlag)) = []"
  by (simp add: spec_violation_def exampleEmptyIn_def exampleBetweenFlag_def single_def
        validateFiltersExecutable_def checkCondition_def FieldTypeMap_def fieldTypeOf_def)

text \<open>\<open>validateOperatorForField\<close>, of segment.types.ts, does reject \<open>between\<close> on a
  boolean field.\<close>

lemma sibling_rejects_between_on_boolean:
  "\<not> validateOperatorForField (field exampleBetweenFlag) (operator exampleBetweenFlag)"
  by (simp add: validateOperatorForField_def exampleBetweenFlag_def fieldTypeOf_def
        FieldTypeMap_def)

text \<open>
  C3, amended. For every condition of the filter set, \<open>validateFiltersExecutable\<close>
  reports: the unknown-field message when the field is not a known field; and, on a
  known field, the \<open>between\<close> message when the value is not an array of exactly two
  elements, the array message when \<open>in\<close> or \<open>notIn\<close> has a value that is not an array,
  the \<open>contains\<close> message when the field is not string-typed, and the ordering message
  when \<open>gt\<close>, \<open>gte\<close>, \<open>lt\<close> or \<open>lte\<close> stands on a field that is neither number- nor
  date-typed. In each of these cases the result is not valid.
\<close>

theorem validation_reports_checked_violations:
  assumes "c \<in> set (allConditions F)"
  shows "(field c \<notin> set FilterableField
            \<longrightarrow> msgUnknownField (field c) \<in> set (errors (validateFiltersExecutable F)))
       \<and> (field c \<in> set FilterableField \<and> operator c = ''between''
            \<and> \<not> (isArray (val c) \<and> length (elems (val c)) = 2)
            \<longrightarrow> msgBetween (field c) \<in> set (errors (validateFiltersExecutable F)))
       \<and> (field c \<in> set FilterableField \<and> operator c \<in> set [''in'', ''notIn'']
            \<and> \<not> isArray (val c)
            \<longrightarrow> msgArray (field c) (operator c) \<in> set (errors (validateFiltersExecutable F)))
       \<and> (field c \<in> set FilterableField \<and> operator c = ''contains''
            \<and> fieldTypeOf (field c) \<noteq> Some TString
            \<longrightarrow> msgContains (field c) \<in> set (errors (validateFiltersExecutable F)))
       \<and> (field c \<in> set FilterableField \<and> operator c \<in> set [''gt'', ''gte'', ''lt'', ''lte'']
            \<and> fieldTypeOf (field c) \<noteq> Some TNumber \<and> fieldTypeOf (field c) \<noteq> Some TDate
            \<longrightarrow> msgOrdering (field c) (operator c) \<in> set (errors (validateFiltersExecutable F)))
       \<and> (checked_violation c \<longrightarrow> \<not> valid (validateFiltersExecutable F))"
proof -
  have sub: "set (checkCondition [] c) \<subseteq> set (errors (validateFiltersExecutable F))"
    using assms by (rule condition_errors_reported)
  have "\<not> valid (validateFiltersExecutable F)" if "checked_violation c"
    using that assms valid_iff_no_checked_violation [of F] by blast
  moreover have "msgUnknownField (field c) \<in> set (errors (validateFiltersExecutable F))"
    if "field c \<notin> set FilterableField"
    using sub checkCondition_messages(1) [OF that] by simp
  moreover have "msgBetween (field c) \<in> set (errors (validateFiltersExecutable F))"
    if "field c \<in> set FilterableField" "operator c = ''between''"
       "\<not> (isArray (val c) \<and> length (elems (val c)) = 2)"
    using sub checkCondition_messages(2) [OF that] by simp
  moreover have "msgArray (field c) (operator c) \<in> set (errors (validateFiltersExecutable F))"
    if "field c \<in> set FilterableField" "operator c \<in> set [''in'', ''notIn'']"
       "\<not> isArray (val c)"
    using sub checkCondition_messages(3) [OF that] by simp
  moreover have "msgContains (field c) \<in> set (errors (validateFiltersExecutable F))"
    if "field c \<in> set FilterableField" "operator c = ''contains''"
       "fieldTypeOf (field c) \<noteq> Some TString"
    using sub checkCondition_messages(4) [OF that] by simp
  moreover have "msgOrdering (field c) (operator c) \<in> set (errors (validateFiltersExecutable F))"
    if "field c \<in> set FilterableField" "operator c \<in> set [''gt'', ''gte'', ''lt'', ''lte'']"
       "fieldTypeOf (field c) \<noteq> Some TNumber" "fieldTypeOf (field c) \<noteq> Some TDate"
    using sub checkCondition_messages(5) [OF that] by simp
  ultimately show ?thesis by blast
qed

theorem validation_reports_checked_violations_witness:
  "exampleContainsNumber \<in> set (allConditions (single exampleContainsNumber))
   \<and> field exampleContainsNumber \<in> set FilterableField
   \<and> operator exampleContainsNumber = ''contains''
   \<and> fieldTypeOf (field exampleContainsNumber) \<noteq> Some TString
   \<and> msgContains ''totalSpent''
        \<in> set (errors (validateFiltersExecutable (single exampleContainsNumber)))
   \<and> \<not> valid (validateFiltersExecutable (single exampleContainsNumber))"
  using validation_reports_checked_violations
          [of exampleContainsNumber "single exampleContainsNumber"]
  by (simp add: exampleContainsNumber_def single_def allConditions_def checked_violation_def
        FilterableField_def fieldTypeOf_def FieldTypeMap_def)

section \<open>Properties of the diff\<close>

text \<open>
  C6. \<open>diffEvaluations\<close> gives as \<open>added\<close> the ids of \<open>current\<close> that are not among
  the ids of \<open>previous\<close>, in the order of \<open>current\<close>; as \<open>removed\<close> the ids of
  \<open>previous\<close> that are not among the ids of \<open>current\<close>, in the order of \<open>previous\<close>;
  as \<open>unchanged\<close> the ids of \<open>current\<close> that are among the ids of \<open>previous\<close>, in the
  order of \<open>current\<close>. From \<open>[A, B, C]\<close> to \<open>[B, C, D]\<close>: added \<open>[D]\<close>, removed
  \<open>[A]\<close>, unchanged \<open>[B, C]\<close>. A snapshot against itself: nothing added, nothing
  removed, all its ids unchanged.
\<close>

theorem diffEvaluations_membership:
  "added (diffEvaluations previous current)
     = filter (\<lambda>i. i \<notin> set (customerIds previous)) (customerIds current)
   \<and> removed (diffEvaluations previous current)
     = filter (\<lambda>i. i \<notin> set (customerIds current)) (customerIds previous)
   \<and> unchanged (diffEvaluations previous current)
     = filter (\<lambda>i. i \<in> set (customerIds previous)) (customerIds current)
   \<and> set (added (diffEvaluations previous current))
     = set (customerIds current) - set (customerIds previous)
   \<and> set (removed (diffEvaluations previous current))
     = set (customerIds previous) - set (customerIds current)
   \<and> set (unchanged (diffEvaluations previous current))
     = set (customerIds current) \<inter> set (customerIds previous)
   \<and> subseq (added (diffEvaluations previous current)) (customerIds current)
   \<and> subseq (removed (diffEvaluations previous current)) (customerIds previous)
   \<and> subseq (unchanged (diffEvaluations previous current)) (customerIds current)
   \<and> diffEvaluations (exampleSnapshot [''A'', ''B'', ''C'']) (exampleSnapshot [''B'', ''C'', ''D''])
     = \<lparr> added = [''D''], removed = [''A''], unchanged = [''B'', ''C''] \<rparr>
   \<and> diffEvaluations current current
     = \<lparr> added = [], removed = [], unchanged = customerIds current \<rparr>"
proof -
  have d: "diffEvaluations previous current
             = \<lparr> added = filter (\<lambda>i. i \<notin> set (customerIds previous)) (customerIds current),
                 removed = filter (\<lambda>i. i \<notin> set (customerIds current)) (customerIds previous),
                 unchanged = filter (\<lambda>i. i \<in> set (customerIds previous)) (customerIds current) \<rparr>"
    for previous current
    by (simp add: diffEvaluations_def Let_def)
  show ?thesis
    unfolding d by (auto simp: exampleSnapshot_def)
qed

section \<open>Properties of the composition\<close>

lemma mapE_Inr_iff: "mapE f xs = Inr ys \<longleftrightarrow> list_all2 (\<lambda>x y. f x = Inr y) xs ys"
proof (induction xs arbitrary: ys)
  case Nil
  show ?case by auto
next
  case (Cons x xs)
  show ?case
  proof (cases "f x")
    case (Inl e)
    then show ?thesis by (auto simp: list_all2_Cons1)
  next
    case (Inr y)
    then show ?thesis
      using Cons.IH by (cases "mapE f xs") (auto simp: list_all2_Cons1)
  qed
qed

lemma mapE_total:
  "(\<exists>ys. mapE f xs = Inr ys) \<longleftrightarrow> (\<forall>x \<in> set xs. \<exists>y. f x = Inr y)"
  by (induction xs) (auto split: sum.splits)

lemma filterGroupToPrisma_Inr_iff:
  "filterGroupToPrisma P g = Inr w \<longleftrightarrow>
     (\<exists>cs. list_all2 (\<lambda>c cw. conditionToPrisma P c = Inr cw) (conditions g) cs
           \<and> w = groupClause (logic g) cs)"
proof (cases "mapE (conditionToPrisma P) (conditions g)")
  case (Inl e)
  then show ?thesis
    by (simp add: filterGroupToPrisma_def mapE_Inr_iff [symmetric])
next
  case (Inr cs)
  then show ?thesis
    by (cases "logic g")
       (auto simp: filterGroupToPrisma_def groupClause_def mapE_Inr_iff [symmetric])
qed

lemma filterGroupToPrisma_total:
  "(\<exists>w. filterGroupToPrisma P g = Inr w)
     \<longleftrightarrow> (\<forall>c \<in> set (conditions g). \<exists>cw. conditionToPrisma P c = Inr cw)"
  using mapE_total [of "conditionToPrisma P" "conditions g"]
  by (auto simp: filterGroupToPrisma_def split: sum.splits)

lemma filtersToPrismaWhere_Inr_iff:
  "filtersToPrismaWhere P tenant F = Inr w \<longleftrightarrow>
     (\<exists>gs. list_all2 (\<lambda>g gw. filterGroupToPrisma P g = Inr gw) (groups F) gs
           \<and> w = TenantAND tenant gs)"
  by (auto simp: filtersToPrismaWhere_def mapE_Inr_iff [symmetric] split: sum.splits)

lemma filtersToPrismaWhere_total:
  "(\<exists>w. filtersToPrismaWhere P tenant F = Inr w)
     \<longleftrightarrow> (\<forall>c \<in> set (allConditions F). \<exists>cw. conditionToPrisma P c = Inr cw)"
proof -
  have "(\<exists>w. filtersToPrismaWhere P tenant F = Inr w)
          \<longleftrightarrow> (\<exists>gs. mapE (filterGroupToPrisma P) (groups F) = Inr gs)"
    by (auto simp: filtersToPrismaWhere_def split: sum.splits)
  also have "\<dots> \<longleftrightarrow> (\<forall>g \<in> set (groups F). \<exists>w. filterGroupToPrisma P g = Inr w)"
    by (rule mapE_total)
  also have "\<dots> \<longleftrightarrow> (\<forall>c \<in> set (allConditions F). \<exists>cw. conditionToPrisma P c = Inr cw)"
    by (auto simp: filterGroupToPrisma_total allConditions_def)
  finally show ?thesis .
qed

lemma conditions_hold_all:
  "list_all2 (\<lambda>c cw. conditionToPrisma P c = Inr cw) cs ws \<Longrightarrow>
     list_all (matches ev r) ws = list_all (condition_holds P ev r) cs"
  by (induction cs ws rule: list_all2_induct) (simp_all add: condition_holds_def)

lemma conditions_hold_ex:
  "list_all2 (\<lambda>c cw. conditionToPrisma P c = Inr cw) cs ws \<Longrightarrow>
     list_ex (matches ev r) ws = list_ex (condition_holds P ev r) cs"
  by (induction cs ws rule: list_all2_induct) (simp_all add: condition_holds_def)

lemma group_holds:
  assumes "filterGroupToPrisma P g = Inr gw"
  shows "matches ev r gw = spec_group_holds P ev r g"
proof -
  from assms obtain cs
    where cs: "list_all2 (\<lambda>c cw. conditionToPrisma P c = Inr cw) (conditions g) cs"
      and gw: "gw = groupClause (logic g) cs"
    by (auto simp: filterGroupToPrisma_Inr_iff)
  show ?thesis
    unfolding gw spec_group_holds_def groupClause_def
    using conditions_hold_all [OF cs, of ev r] conditions_hold_ex [OF cs, of ev r]
    by (cases "logic g") simp_all
qed

lemma groups_hold:
  "list_all2 (\<lambda>g gw. filterGroupToPrisma P g = Inr gw) gs ws \<Longrightarrow>
     list_all (matches ev r) ws = list_all (spec_group_holds P ev r) gs"
  by (induction gs ws rule: list_all2_induct) (simp_all add: group_holds)

text \<open>
  A filter set translates when each of its conditions does; this is the case for every
  filter set whose operators are enumerated and which \<open>validateFiltersExecutable\<close>
  accepts.
\<close>

lemma conditionToPrisma_ok:
  assumes "operator c \<in> set FilterOperator"
    and "operator c = ''between'' \<longrightarrow> isArray (val c) \<and> length (elems (val c)) = 2"
  shows "\<exists>w. conditionToPrisma P c = Inr w"
  using assms
  by (auto simp: FilterOperator_def conditionToPrisma_def Let_def
        isArray_processValue length_elems_processValue)

lemma valid_filters_translate:
  assumes ops: "\<forall>c \<in> set (allConditions F). operator c \<in> set FilterOperator"
    and ok: "valid (validateFiltersExecutable F)"
  shows "\<exists>w. filtersToPrismaWhere P tenant F = Inr w"
proof -
  have "\<exists>cw. conditionToPrisma P c = Inr cw" if c: "c \<in> set (allConditions F)" for c
  proof (rule conditionToPrisma_ok)
    show "operator c \<in> set FilterOperator" using ops c by blast
    have "\<not> checked_violation c"
      using ok c valid_iff_no_checked_violation [of F] by blast
    then show "operator c = ''between'' \<longrightarrow> isArray (val c) \<and> length (elems (val c)) = 2"
      by (auto simp: checked_violation_def)
  qed
  then show ?thesis
    using filtersToPrismaWhere_total [of P tenant F] by blast
qed

text \<open>
  C2. For a filter set whose conditions all translate (a valid one), with groups
  \<open>G1..Gn\<close>: the where clause of \<open>filtersToPrismaWhere\<close> is the tenant constraint
  together with the AND of \<open>n\<close> clauses, one per group and in the order of the groups;
  the clause of a group is \<open>AND\<close> of its translated conditions when its logic is AND and
  \<open>OR\<close> of them when its logic is OR; and a row satisfies the where clause exactly
  when it belongs to the tenant and satisfies every group, a group being satisfied by
  all of its conditions (AND) or by one of them (OR).
\<close>

theorem filters_compose:
  assumes "\<forall>c \<in> set (allConditions F). \<exists>cw. conditionToPrisma P c = Inr cw"
  shows "\<exists>gs. filtersToPrismaWhere P tenant F = Inr (TenantAND tenant gs)
           \<and> list_all2
                (\<lambda>g gw. \<exists>cs. list_all2 (\<lambda>c cw. conditionToPrisma P c = Inr cw) (conditions g) cs
                             \<and> gw = groupClause (logic g) cs)
                (groups F) gs
           \<and> (\<forall>ev r. matches ev r (TenantAND tenant gs) = spec_filters_hold P ev r tenant F)"
proof -
  from assms obtain w where "filtersToPrismaWhere P tenant F = Inr w"
    using filtersToPrismaWhere_total [of P tenant F] by blast
  then obtain gs
    where gs: "list_all2 (\<lambda>g gw. filterGroupToPrisma P g = Inr gw) (groups F) gs"
      and w: "filtersToPrismaWhere P tenant F = Inr (TenantAND tenant gs)"
    by (auto simp: filtersToPrismaWhere_Inr_iff)
  have "list_all2
          (\<lambda>g gw. \<exists>cs. list_all2 (\<lambda>c cw. conditionToPrisma P c = Inr cw) (conditions g) cs
                       \<and> gw = groupClause (logic g) cs)
          (groups F) gs"
    using gs by (simp add: filterGroupToPrisma_Inr_iff)
  moreover have "matches ev r (TenantAND tenant gs) = spec_filters_hold P ev r tenant F"
    for ev r
    using groups_hold [OF gs, of ev r] by (simp add: spec_filters_hold_def)
  ultimately show ?thesis using w by blast
qed

theorem filters_compose_witness:
  "list_all (\<lambda>c. \<exists>cw. conditionToPrisma examplePlatform c = Inr cw) (allConditions exampleFilters)
   \<and> filtersToPrismaWhere examplePlatform ''t1'' exampleFilters
       = Inr (TenantAND ''t1''
                [WhereAND [FieldIs ''totalSpent'' (FGt (JNum 100))],
                 WhereOR [FieldIs ''rfmSegment'' (FIn (JArr [JStr ''CHAMPIONS'', JStr ''LOYAL''])),
                          FieldIs ''isHighValue'' (FEquals (JBool True))]])"
  using filters_compose [of exampleFilters examplePlatform "''t1''"]
  by (simp add: exampleFilters_def allConditions_def conditionToPrisma_def processValue_def
        fieldTypeOf_def FieldTypeMap_def filtersToPrismaWhere_def filterGroupToPrisma_def)

section \<open>Properties of the evaluation\<close>

text \<open>The three functions return exactly when the filter set translates.\<close>

lemma evaluation_returns:
  "(\<exists>res. evaluateSegment P ev tableF tableA tenant F = Inr res)
     \<longleftrightarrow> (\<forall>c \<in> set (allConditions F). \<exists>cw. conditionToPrisma P c = Inr cw)"
  "(\<exists>n. countMatchingCustomers P ev tableF tenant F = Inr n)
     \<longleftrightarrow> (\<forall>c \<in> set (allConditions F). \<exists>cw. conditionToPrisma P c = Inr cw)"
  "(\<exists>res. previewSegmentCustomers P ev tableF tableA tenant F limit = Inr res)
     \<longleftrightarrow> (\<forall>c \<in> set (allConditions F). \<exists>cw. conditionToPrisma P c = Inr cw)"
  unfolding filtersToPrismaWhere_total [of P tenant F, symmetric]
  by (cases "filtersToPrismaWhere P tenant F";
      simp add: evaluateSegment_def countMatchingCustomers_def previewSegmentCustomers_def)+

lemma matches_tenant: "matches ev r (TenantAND tenant gs) \<Longrightarrow> tenantId r = tenant"
  by simp

lemma findMany_ofTenant:
  "findMany ev (ofTenant tenant table) (TenantAND tenant gs)
     = findMany ev table (TenantAND tenant gs)"
  by (auto simp: findMany_def ofTenant_def intro: filter_cong)

lemma findMany_rows:
  "set (findMany ev table (TenantAND tenant gs)) \<subseteq> set (ofTenant tenant table)"
  by (auto simp: findMany_def ofTenant_def)

lemma aggregate_ofTenant:
  "aggregateCount ev (ofTenant tenant table) (TenantAND tenant gs)
     = aggregateCount ev table (TenantAND tenant gs)"
  "aggregateSum ev (ofTenant tenant table) (TenantAND tenant gs)
     = aggregateSum ev table (TenantAND tenant gs)"
  by (simp_all add: aggregateCount_def aggregateSum_def findMany_ofTenant)

lemma set_take_order_subset:
  "set (take n (orderByTotalSpentDesc rows)) \<subseteq> set rows"
  using set_take_subset [of n "orderByTotalSpentDesc rows"]
  by (simp add: orderByTotalSpentDesc_def)

lemma example_where:
  "filtersToPrismaWhere examplePlatform ''t1'' exampleSpendFilter
     = Inr (TenantAND ''t1'' [WhereAND [FieldIs ''totalSpent'' (FGt (JNum 100))]])"
  by (simp add: exampleSpendFilter_def single_def filtersToPrismaWhere_def
        filterGroupToPrisma_def conditionToPrisma_def processValue_def fieldTypeOf_def
        FieldTypeMap_def)

lemma example_findMany:
  "findMany spendAbove exampleTable
     (TenantAND ''t1'' [WhereAND [FieldIs ''totalSpent'' (FGt (JNum 100))]])
     = [exampleRow ''c1'' ''t1'' 150, exampleRow ''c4'' ''t1'' 300]"
  by (simp add: findMany_def exampleTable_def exampleRow_def)

lemma example_now: "now examplePlatform = 1680264000000"
  by (simp add: examplePlatform_def)

text \<open>
  C1. Whatever the tenant and the filters, the where clause of \<open>filtersToPrismaWhere\<close>
  has the constraint \<open>tenantId = tenant\<close> at its top level, and only rows of the tenant
  satisfy it. The ids \<open>evaluateSegment\<close> returns, the rows \<open>countMatchingCustomers\<close>
  counts and the records \<open>previewSegmentCustomers\<close> returns are rows of the tenant, and
  none of the three results changes when the rows of all other tenants are taken out of
  the table.
\<close>

theorem tenant_scoping:
  "(\<forall>w. filtersToPrismaWhere P tenant F = Inr w \<longrightarrow>
        (\<exists>gs. w = TenantAND tenant gs) \<and> (\<forall>ev r. matches ev r w \<longrightarrow> tenantId r = tenant))
   \<and> (\<forall>res. evaluateSegment P ev tableF tableA tenant F = Inr res \<longrightarrow>
        (\<exists>rows. customerIds res = map id' rows \<and> set rows \<subseteq> set (ofTenant tenant tableF)))
   \<and> evaluateSegment P ev tableF tableA tenant F
       = evaluateSegment P ev (ofTenant tenant tableF) (ofTenant tenant tableA) tenant F
   \<and> (\<forall>n. countMatchingCustomers P ev tableF tenant F = Inr n \<longrightarrow>
        (\<exists>rows. n = length rows \<and> set rows \<subseteq> set (ofTenant tenant tableF)))
   \<and> countMatchingCustomers P ev tableF tenant F
       = countMatchingCustomers P ev (ofTenant tenant tableF) tenant F
   \<and> (\<forall>res. previewSegmentCustomers P ev tableF tableA tenant F limit = Inr res \<longrightarrow>
        (\<exists>rows. customers res = map CustomerPreview.truncate rows
                \<and> set rows \<subseteq> set (ofTenant tenant tableF)))
   \<and> previewSegmentCustomers P ev tableF tableA tenant F limit
       = previewSegmentCustomers P ev (ofTenant tenant tableF) (ofTenant tenant tableA)
           tenant F limit"
proof (cases "filtersToPrismaWhere P tenant F")
  case (Inl e)
  then show ?thesis
    by (simp add: evaluateSegment_def countMatchingCustomers_def previewSegmentCustomers_def)
next
  case (Inr w)
  then obtain gs where w: "w = TenantAND tenant gs"
    by (auto simp: filtersToPrismaWhere_Inr_iff)
  have a: "(\<exists>gs. w = TenantAND tenant gs) \<and> (\<forall>ev r. matches ev r w \<longrightarrow> tenantId r = tenant)"
    using w by simp
  have b: "\<exists>rows. map id' (findMany ev tableF w) = map id' rows
                  \<and> set rows \<subseteq> set (ofTenant tenant tableF)"
    using findMany_rows [of ev tableF tenant gs] w by blast
  have c: "\<exists>rows. length (findMany ev tableF w) = length rows
                  \<and> set rows \<subseteq> set (ofTenant tenant tableF)"
    using findMany_rows [of ev tableF tenant gs] w by blast
  have "set (take limit (orderByTotalSpentDesc (findMany ev tableF w)))
          \<subseteq> set (ofTenant tenant tableF)"
    using set_take_order_subset [of limit "findMany ev tableF w"]
      findMany_rows [of ev tableF tenant gs] w by blast
  then have d: "\<exists>rows. map CustomerPreview.truncate
                          (take limit (orderByTotalSpentDesc (findMany ev tableF w)))
                        = map CustomerPreview.truncate rows
                      \<and> set rows \<subseteq> set (ofTenant tenant tableF)"
    by blast
  show ?thesis
    using Inr a b c d
    by (simp add: evaluateSegment_def countMatchingCustomers_def previewSegmentCustomers_def
          w findMany_ofTenant aggregate_ofTenant Let_def)
qed

theorem tenant_scoping_witness:
  "evaluateSegment examplePlatform spendAbove exampleTable exampleTable ''t1'' exampleSpendFilter
     = Inr \<lparr> customerIds = [''c1'', ''c4''], EvaluationResult.totalCount = 2,
             EvaluationResult.totalSpent = 450, evaluatedAt = 1680264000000 \<rparr>
   \<and> countMatchingCustomers examplePlatform spendAbove exampleTable ''t1'' exampleSpendFilter
     = Inr 2"
proof -
  have e: "evaluateSegment examplePlatform spendAbove exampleTable exampleTable ''t1''
             exampleSpendFilter
           = Inr \<lparr> customerIds = [''c1'', ''c4''], EvaluationResult.totalCount = 2,
                   EvaluationResult.totalSpent = 450, evaluatedAt = 1680264000000 \<rparr>"
    by (simp add: evaluateSegment_def example_where example_findMany aggregateCount_def
          aggregateSum_def exampleRow_def example_now)
  have c: "countMatchingCustomers examplePlatform spendAbove exampleTable ''t1''
             exampleSpendFilter = Inr 2"
    by (simp add: countMatchingCustomers_def example_where example_findMany)
  from tenant_scoping
         [of examplePlatform "''t1''" exampleSpendFilter spendAbove exampleTable exampleTable 1]
       e c
  show ?thesis by simp
qed

lemma sorted_desc_order:
  "sorted_wrt (\<lambda>a b. CustomerPreview.totalSpent b \<le> CustomerPreview.totalSpent a)
     (orderByTotalSpentDesc rows)"
proof -
  have "sorted (map (\<lambda>c. - CustomerPreview.totalSpent c) (orderByTotalSpentDesc rows))"
    unfolding orderByTotalSpentDesc_def by (rule sorted_sort_key)
  then show ?thesis by (simp add: sorted_map)
qed

lemma mset_order: "mset (orderByTotalSpentDesc rows) = mset rows"
  by (simp add: orderByTotalSpentDesc_def)

lemma sum_orZero:
  "orZero (aggregateSum ev table w)
     = sum_list (map CustomerPreview.totalSpent (findMany ev table w))"
  by (simp add: aggregateSum_def Let_def)

text \<open>
  C8. When \<open>previewSegmentCustomers\<close> returns, with limit \<open>N\<close>: it returns at most
  \<open>N\<close> records, in descending order of \<open>totalSpent\<close>; they are the first \<open>N\<close> of
  the matching rows in that order (all of them when fewer match); \<open>totalCount\<close> is the
  number of all rows matching the same where clause and \<open>estimatedRevenue\<close> the sum of
  their \<open>totalSpent\<close>, whatever the limit.
\<close>

theorem preview_top_limit:
  assumes "previewSegmentCustomers P ev tableF tableA tenant F limit = Inr res"
  shows "length (customers res) \<le> limit
       \<and> sorted_wrt (\<lambda>a b. CustomerPreview.totalSpent b \<le> CustomerPreview.totalSpent a)
           (customers res)
       \<and> (\<exists>w. filtersToPrismaWhere P tenant F = Inr w
             \<and> (\<exists>ordered.
                   mset ordered = mset (findMany ev tableF w)
                   \<and> sorted_wrt (\<lambda>a b. CustomerPreview.totalSpent b \<le> CustomerPreview.totalSpent a)
                       ordered
                   \<and> customers res = map CustomerPreview.truncate (take limit ordered))
             \<and> length (customers res) = min limit (length (findMany ev tableF w))
             \<and> totalCount res = length (findMany ev tableA w)
             \<and> estimatedRevenue res
                 = sum_list (map CustomerPreview.totalSpent (findMany ev tableA w)))"
proof -
  from assms obtain w where w: "filtersToPrismaWhere P tenant F = Inr w"
    by (cases "filtersToPrismaWhere P tenant F") (simp_all add: previewSegmentCustomers_def)
  define ordered where "ordered = orderByTotalSpentDesc (findMany ev tableF w)"
  have res: "res = \<lparr> customers = map CustomerPreview.truncate (take limit ordered),
                     totalCount = aggregateCount ev tableA w,
                     estimatedRevenue = orZero (aggregateSum ev tableA w) \<rparr>"
    using assms w by (simp add: previewSegmentCustomers_def ordered_def Let_def)
  have so: "sorted_wrt (\<lambda>a b. CustomerPreview.totalSpent b \<le> CustomerPreview.totalSpent a) ordered"
    unfolding ordered_def by (rule sorted_desc_order)
  have ms: "mset ordered = mset (findMany ev tableF w)"
    unfolding ordered_def by (rule mset_order)
  have len: "length ordered = length (findMany ev tableF w)"
    using ms by (metis size_mset)
  have st: "sorted_wrt (\<lambda>a b. CustomerPreview.totalSpent b \<le> CustomerPreview.totalSpent a)
              (map CustomerPreview.truncate (take limit ordered))"
    using sorted_wrt_take [OF so, of limit]
    by (simp add: sorted_wrt_map CustomerPreview.truncate_def)
  show ?thesis
    using w so ms st len
    by (auto simp: res aggregateCount_def sum_orZero)
qed

theorem preview_top_limit_witness:
  "previewSegmentCustomers examplePlatform spendAbove exampleTable exampleTable ''t1''
       exampleSpendFilter 1
     = Inr \<lparr> customers = [CustomerPreview.truncate (exampleRow ''c4'' ''t1'' 300)],
             totalCount = 2, estimatedRevenue = 450 \<rparr>"
proof -
  have p: "previewSegmentCustomers examplePlatform spendAbove exampleTable exampleTable ''t1''
             exampleSpendFilter 1
           = Inr \<lparr> customers = [CustomerPreview.truncate (exampleRow ''c4'' ''t1'' 300)],
                   totalCount = 2, estimatedRevenue = 450 \<rparr>"
    by (simp add: previewSegmentCustomers_def example_where example_findMany
          aggregateCount_def aggregateSum_def orderByTotalSpentDesc_def exampleRow_def)
  from preview_top_limit [OF p] p show ?thesis by simp
qed

section \<open>Properties of the dates\<close>

text \<open>
  \<open>YearFromTime\<close> is the year ECMA-262 defines: the largest year whose first day is
  not after the time value.
\<close>

lemma DaysInYear_bounds: "365 \<le> DaysInYear y \<and> DaysInYear y \<le> 366"
  by (simp add: DaysInYear_def)

lemma DayFromYear_1970: "DayFromYear 1970 = 0"
  by (simp add: DayFromYear_def)

lemma DayFromYear_pred: "DayFromYear (y - 1) = DayFromYear y - DaysInYear (y - 1)"
  using DayFromYear_Suc [of "y - 1"] by simp

lemma DayFromYear_upper_ge: "1970 \<le> y \<Longrightarrow> DayFromYear y \<le> 366 * (y - 1970)"
proof (induction y rule: int_ge_induct)
  case base
  show ?case by (simp add: DayFromYear_1970)
next
  case (step i)
  then show ?case
    using DaysInYear_bounds [of i] by (simp add: DayFromYear_Suc)
qed

lemma DayFromYear_upper_le: "y \<le> 1970 \<Longrightarrow> DayFromYear y \<le> 365 * (y - 1970)"
proof (induction y rule: int_le_induct)
  case base
  show ?case by (simp add: DayFromYear_1970)
next
  case (step i)
  then show ?case
    using DaysInYear_bounds [of "i - 1"] by (simp add: DayFromYear_pred)
qed

lemma yearStart_le: "DayFromYear (yearStart d) \<le> d"
proof (cases "0 \<le> d")
  case True
  then have "0 \<le> d div 366" by simp
  then have "DayFromYear (1970 + d div 366) \<le> 366 * (d div 366)"
    using DayFromYear_upper_ge [of "1970 + d div 366"] by simp
  also have "\<dots> \<le> d"
    using div_mult_mod_eq [of d 366] pos_mod_sign [of 366 d] by simp
  finally show ?thesis using True by (simp add: yearStart_def)
next
  case False
  then have "d div 365 \<le> 0" using div_neg_pos_less0 [of d 365] by simp
  then have "DayFromYear (1970 + d div 365) \<le> 365 * (d div 365)"
    using DayFromYear_upper_le [of "1970 + d div 365"] by simp
  also have "\<dots> \<le> d"
    using div_mult_mod_eq [of d 365] pos_mod_sign [of 365 d] by simp
  finally show ?thesis using False by (simp add: yearStart_def)
qed

lemma yearUp_spec:
  "DayFromYear y \<le> d \<Longrightarrow>
     DayFromYear (yearUp d y) \<le> d \<and> d < DayFromYear (yearUp d y + 1)"
proof (induction d y rule: yearUp.induct)
  case (1 d y)
  show ?case
  proof (cases "DayFromYear (y + 1) \<le> d")
    case True
    then have "yearUp d y = yearUp d (y + 1)" by (subst yearUp.simps) simp
    then show ?thesis using "1.IH" [OF True True] by simp
  next
    case False
    then have "yearUp d y = y" by (subst yearUp.simps) simp
    then show ?thesis using False "1.prems" by simp
  qed
qed

lemma YearFromTime_spec:
  "DayFromYear (YearFromTime t) \<le> Day t \<and> Day t < DayFromYear (YearFromTime t + 1)"
  unfolding YearFromTime_def by (rule yearUp_spec) (rule yearStart_le)

lemma DayFromYear_mono: "y \<le> y' \<Longrightarrow> DayFromYear y \<le> DayFromYear y'"
proof (induction y' rule: int_ge_induct)
  case base
  show ?case by simp
next
  case (step i)
  then show ?case
    using DaysInYear_bounds [of i] by (simp add: DayFromYear_Suc)
qed

lemma YearFromTime_unique:
  assumes "DayFromYear y \<le> Day t" "Day t < DayFromYear (y + 1)"
  shows "YearFromTime t = y"
proof (rule ccontr)
  assume ne: "YearFromTime t \<noteq> y"
  show False
  proof (cases "YearFromTime t < y")
    case True
    then have "DayFromYear (YearFromTime t + 1) \<le> DayFromYear y"
      by (intro DayFromYear_mono) simp
    then show False using assms(1) YearFromTime_spec [of t] by simp
  next
    case False
    with ne have "DayFromYear (y + 1) \<le> DayFromYear (YearFromTime t)"
      by (intro DayFromYear_mono) simp
    then show False using assms(2) YearFromTime_spec [of t] by simp
  qed
qed

text \<open>
  A day \<open>dt\<close> of month \<open>m\<close> of year \<open>y\<close> has these three as its calendar fields; so
  \<open>MakeDay y m 1\<close> is the day ECMA-262 asks for (the day whose fields are \<open>y\<close>,
  \<open>m\<close> and 1).
\<close>

lemma month_cases:
  fixes m :: int
  assumes "0 \<le> m" "m \<le> 11"
  shows "m = 0 \<or> m = 1 \<or> m = 2 \<or> m = 3 \<or> m = 4 \<or> m = 5 \<or> m = 6 \<or> m = 7 \<or> m = 8
         \<or> m = 9 \<or> m = 10 \<or> m = 11"
  using assms by arith

lemma leap_cases: "DaysInYear y = 365 \<or> DaysInYear y = 366"
  by (simp add: DaysInYear_def)

lemma monthStart_bounds:
  assumes "0 \<le> m" "m \<le> 11"
  shows "DayFromYear y \<le> monthStart m y"
    and "monthStart m y + DaysInMonth m y \<le> DayFromYear (y + 1)"
  using month_cases [OF assms] leap_cases [of y]
  by (elim disjE; simp add: monthStart_def DaysInMonth_def DayFromYear_Suc)+

lemma fields_of_day:
  assumes m: "0 \<le> m" "m \<le> 11" and dt: "1 \<le> dt" "dt \<le> DaysInMonth m y"
    and d: "Day t = monthStart m y + dt - 1"
  shows "YearFromTime t = y" and "MonthFromTime t = m" and "DateFromTime t = dt"
proof -
  show y: "YearFromTime t = y"
  proof (rule YearFromTime_unique)
    show "DayFromYear y \<le> Day t"
      using monthStart_bounds(1) [OF m, of y] dt d by simp
    show "Day t < DayFromYear (y + 1)"
      using monthStart_bounds(2) [OF m, of y] dt d by simp
  qed
  have w: "DayWithinYear t = monthStart m y - DayFromYear y + dt - 1"
    by (simp add: DayWithinYear_def y d)
  show mt: "MonthFromTime t = m"
    using month_cases [OF m] leap_cases [of y] dt
    unfolding MonthFromTime_def InLeapYear_def w y Let_def
    by (elim disjE; simp add: monthStart_def DaysInMonth_def)
  show "DateFromTime t = dt"
    using month_cases [OF m] leap_cases [of y]
    unfolding DateFromTime_def InLeapYear_def w y mt Let_def
    by (elim disjE; simp add: monthStart_def)
qed

lemma month_window:
  "monthStart (MonthFromTime t) (YearFromTime t) \<le> Day t
   \<and> Day t < monthStart (MonthFromTime t) (YearFromTime t)
               + DaysInMonth (MonthFromTime t) (YearFromTime t)"
  using YearFromTime_spec [of t] leap_cases [of "YearFromTime t"]
  unfolding MonthFromTime_def InLeapYear_def DayWithinYear_def Let_def DayFromYear_Suc
  by (elim disjE; simp add: monthStart_def DaysInMonth_def)

lemma monthStart_DateFromTime:
  "monthStart (MonthFromTime t) (YearFromTime t) + DateFromTime t - 1 = Day t"
proof -
  define m where "m = MonthFromTime t"
  define l :: int where "l = (if DaysInYear (YearFromTime t) = 366 then 1 else 0)"
  define off :: int where
    "off = (if m = 0 then 0 else if m = 1 then 31 else if m = 2 then 59 + l
            else if m = 3 then 90 + l else if m = 4 then 120 + l else if m = 5 then 151 + l
            else if m = 6 then 181 + l else if m = 7 then 212 + l else if m = 8 then 243 + l
            else if m = 9 then 273 + l else if m = 10 then 304 + l else 334 + l)"
  have a: "monthStart m (YearFromTime t) = DayFromYear (YearFromTime t) + off"
    unfolding monthStart_def off_def l_def Let_def by (rule refl)
  have b: "DateFromTime t = DayWithinYear t - off + 1"
    unfolding DateFromTime_def off_def l_def InLeapYear_def Let_def m_def [symmetric]
    by (simp split: if_splits)
  show ?thesis
    unfolding m_def [symmetric] a b by (simp add: DayWithinYear_def)
qed

lemma DateFromTime_range:
  "1 \<le> DateFromTime t \<and> DateFromTime t \<le> DaysInMonth (MonthFromTime t) (YearFromTime t)"
  using month_window [of t] monthStart_DateFromTime [of t] by linarith

lemma DaysInMonth_bounds: "28 \<le> DaysInMonth m y \<and> DaysInMonth m y \<le> 31"
  by (simp add: DaysInMonth_def)

lemma monthStart_next:
  assumes "0 \<le> m" "m \<le> 10"
  shows "monthStart (m + 1) y = monthStart m y + DaysInMonth m y"
proof -
  have "m = 0 \<or> m = 1 \<or> m = 2 \<or> m = 3 \<or> m = 4 \<or> m = 5 \<or> m = 6 \<or> m = 7 \<or> m = 8
         \<or> m = 9 \<or> m = 10"
    using assms by arith
  then show ?thesis
    using leap_cases [of y]
    by (elim disjE; simp add: monthStart_def DaysInMonth_def)
qed

lemma Day_MakeDate:
  assumes "0 \<le> tw" "tw < msPerDay"
  shows "Day (MakeDate d tw) = d" and "TimeWithinDay (MakeDate d tw) = tw"
proof -
  have p: "(0::int) < msPerDay" by (simp add: msPerDay_def)
  have e: "MakeDate d tw = msPerDay * d + tw" by (simp add: MakeDate_def)
  show "Day (MakeDate d tw) = d"
    unfolding Day_def e using assms p by (metis int_div_pos_eq)
  show "TimeWithinDay (MakeDate d tw) = tw"
    unfolding TimeWithinDay_def e using assms p by (metis int_mod_pos_eq)
qed

lemma TimeWithinDay_range: "0 \<le> TimeWithinDay t \<and> TimeWithinDay t < msPerDay"
  by (simp add: TimeWithinDay_def msPerDay_def)

lemma MakeDay_month_fields:
  fixes n t r :: int
  defines "ym \<equiv> YearFromTime t + (MonthFromTime t + n) div 12"
    and "mn \<equiv> (MonthFromTime t + n) mod 12"
  assumes r: "Day r = MakeDay (YearFromTime t) (MonthFromTime t + n) (DateFromTime t)"
  shows "DateFromTime t \<le> DaysInMonth mn ym \<Longrightarrow>
           YearFromTime r = ym \<and> MonthFromTime r = mn \<and> DateFromTime r = DateFromTime t"
    and "DaysInMonth mn ym < DateFromTime t \<Longrightarrow>
           YearFromTime r = ym \<and> MonthFromTime r = mn + 1
           \<and> DateFromTime r = DateFromTime t - DaysInMonth mn ym"
proof -
  have mn: "0 \<le> mn" "mn \<le> 11" by (simp_all add: mn_def)
  have d: "Day r = monthStart mn ym + DateFromTime t - 1"
    using r by (simp add: MakeDay_def ym_def mn_def)
  have D: "1 \<le> DateFromTime t" "DateFromTime t \<le> 31"
    using DateFromTime_range [of t] DaysInMonth_bounds [of "MonthFromTime t" "YearFromTime t"]
    by simp_all
  show "YearFromTime r = ym \<and> MonthFromTime r = mn \<and> DateFromTime r = DateFromTime t"
    if "DateFromTime t \<le> DaysInMonth mn ym"
    using fields_of_day [OF mn D(1) that d] by simp
  show "YearFromTime r = ym \<and> MonthFromTime r = mn + 1
        \<and> DateFromTime r = DateFromTime t - DaysInMonth mn ym"
    if over: "DaysInMonth mn ym < DateFromTime t"
  proof -
    have "mn \<noteq> 11" using over D(2) by (auto simp: DaysInMonth_def)
    with mn have mn10: "mn \<le> 10" by simp
    have d': "Day r = monthStart (mn + 1) ym + (DateFromTime t - DaysInMonth mn ym) - 1"
      using d by (simp add: monthStart_next [OF mn(1) mn10])
    have lo: "1 \<le> DateFromTime t - DaysInMonth mn ym" using over by simp
    have hi: "DateFromTime t - DaysInMonth mn ym \<le> DaysInMonth (mn + 1) ym"
      using D(2) DaysInMonth_bounds [of mn ym] DaysInMonth_bounds [of "mn + 1" ym] by simp
    have m1: "0 \<le> mn + 1" "mn + 1 \<le> 11" using mn(1) mn10 by simp_all
    show ?thesis
      using fields_of_day [OF m1 lo hi d'] by simp
  qed
qed

text \<open>Setting a field to its own value plus \<open>n\<close>.\<close>

lemma MonthFromTime_range: "0 \<le> MonthFromTime t \<and> MonthFromTime t \<le> 11"
  by (simp add: MonthFromTime_def Let_def)

lemma MakeDay_in_year:
  assumes "0 \<le> m" "m \<le> 11"
  shows "MakeDay y m dt = monthStart m y + dt - 1"
proof -
  have "m div 12 = 0" "m mod 12 = m" using assms by simp_all
  then show ?thesis by (simp add: MakeDay_def)
qed

lemma MakeDay_roundtrip:
  "MakeDay (YearFromTime t) (MonthFromTime t) (DateFromTime t + n) = Day t + n"
  using MonthFromTime_range [of t] monthStart_DateFromTime [of t]
  by (simp add: MakeDay_in_year)

lemma Day_TimeWithinDay: "Day t * msPerDay + TimeWithinDay t = t"
  by (simp add: Day_def TimeWithinDay_def)

lemma setDate_getDate:
  "setDate P t (getDate P t + n) = TimeClip (UTC P (LocalTime P t + n * msPerDay))"
proof -
  define lo where "lo = LocalTime P t"
  have "MakeDate (MakeDay (YearFromTime lo) (MonthFromTime lo) (DateFromTime lo + n))
          (TimeWithinDay lo) = lo + n * msPerDay"
    unfolding MakeDay_roundtrip MakeDate_def
    using Day_TimeWithinDay [of lo] by (simp add: algebra_simps)
  then show ?thesis
    by (simp add: setDate_def getDate_def lo_def [symmetric] Let_def)
qed

lemma shifted_day:
  "Day (t + n * msPerDay) = Day t + n"
  "TimeWithinDay (t + n * msPerDay) = TimeWithinDay t"
  by (simp_all add: Day_def TimeWithinDay_def msPerDay_def)

lemma time_fields:
  "MakeTime (HourFromTime t) (MinFromTime t) (SecFromTime t) (msFromTime t) = TimeWithinDay t"
proof -
  define h where "h = t div 3600000 mod 24"
  define m where "m = t div 60000 mod 60"
  define s where "s = t div 1000 mod 60"
  define r1 where "r1 = t mod 1000"
  define r2 where "r2 = t mod 60000"
  define r3 where "r3 = t mod 3600000"
  define r4 where "r4 = t mod 86400000"
  have a: "r2 = 1000 * s + r1"
    unfolding r2_def s_def r1_def using zmod_zmult2_eq [of 60 t 1000] by simp
  have b: "r3 = 60000 * m + r2"
    unfolding r3_def m_def r2_def using zmod_zmult2_eq [of 60 t 60000] by simp
  have c: "r4 = 3600000 * h + r3"
    unfolding r4_def h_def r3_def using zmod_zmult2_eq [of 24 t 3600000] by simp
  have "h * 3600000 + m * 60000 + s * 1000 + r1 = r4"
    unfolding a b c by (simp add: mult.commute)
  then show ?thesis
    unfolding MakeTime_def HourFromTime_def MinFromTime_def SecFromTime_def msFromTime_def
      TimeWithinDay_def msPerHour_def msPerMinute_def msPerSecond_def msPerDay_def
      h_def m_def s_def r1_def r4_def .
qed

lemma setHours_getHours:
  "setHours P t (getHours P t + n) = TimeClip (UTC P (LocalTime P t + n * msPerHour))"
proof -
  define lo where "lo = LocalTime P t"
  have "MakeTime (HourFromTime lo + n) (MinFromTime lo) (SecFromTime lo) (msFromTime lo)
          = TimeWithinDay lo + n * msPerHour"
    using time_fields [of lo] by (simp add: MakeTime_def algebra_simps)
  then have "MakeDate (Day lo)
               (MakeTime (HourFromTime lo + n) (MinFromTime lo) (SecFromTime lo) (msFromTime lo))
             = lo + n * msPerHour"
    using Day_TimeWithinDay [of lo] by (simp add: MakeDate_def)
  then show ?thesis
    by (simp add: setHours_def getHours_def lo_def [symmetric] Let_def)
qed

lemma setMonth_getMonth:
  "setMonth P t (getMonth P t + n)
     = TimeClip (UTC P (MakeDate
         (MakeDay (YearFromTime (LocalTime P t)) (MonthFromTime (LocalTime P t) + n)
            (DateFromTime (LocalTime P t)))
         (TimeWithinDay (LocalTime P t))))"
  by (simp add: setMonth_def getMonth_def Let_def)

text \<open>The local date and time \<open>setMonth\<close> makes from the local date and time \<open>lo\<close>
  with the month moved by \<open>n\<close>.\<close>

lemma month_shift_fields:
  fixes n lo x :: int
  assumes ym_def: "ym = YearFromTime lo + (MonthFromTime lo + n) div 12"
    and mn_def: "mn = (MonthFromTime lo + n) mod 12"
    and x_def: "x = MakeDate (MakeDay (YearFromTime lo) (MonthFromTime lo + n) (DateFromTime lo))
                      (TimeWithinDay lo)"
  shows "TimeWithinDay x = TimeWithinDay lo"
    and "DateFromTime lo \<le> DaysInMonth mn ym \<Longrightarrow>
           YearFromTime x = ym \<and> MonthFromTime x = mn \<and> DateFromTime x = DateFromTime lo"
    and "DaysInMonth mn ym < DateFromTime lo \<Longrightarrow>
           YearFromTime x = ym \<and> MonthFromTime x = mn + 1
           \<and> DateFromTime x = DateFromTime lo - DaysInMonth mn ym"
proof -
  have dy: "Day x = MakeDay (YearFromTime lo) (MonthFromTime lo + n) (DateFromTime lo)"
    unfolding x_def using TimeWithinDay_range [of lo] by (simp add: Day_MakeDate)
  show "TimeWithinDay x = TimeWithinDay lo"
    unfolding x_def using TimeWithinDay_range [of lo] by (simp add: Day_MakeDate)
  show "YearFromTime x = ym \<and> MonthFromTime x = mn \<and> DateFromTime x = DateFromTime lo"
    if "DateFromTime lo \<le> DaysInMonth mn ym"
    using MakeDay_month_fields(1) [OF dy] that unfolding ym_def mn_def by simp
  show "YearFromTime x = ym \<and> MonthFromTime x = mn + 1
        \<and> DateFromTime x = DateFromTime lo - DaysInMonth mn ym"
    if "DaysInMonth mn ym < DateFromTime lo"
    using MakeDay_month_fields(2) [OF dy] that unfolding ym_def mn_def by simp
qed

text \<open>In a zone whose offset never changes, local arithmetic is arithmetic on the time
  value.\<close>

lemma fixed_offset:
  assumes "\<forall>t u. localTZA P t u = c"
  shows "UTC P (LocalTime P t + k) = t + k"
  using assms by (simp add: UTC_def LocalTime_def)

text \<open>The strings the pattern \<open>/^(-?\d+)([dhm])$/\<close> matches, and the integer
  \<open>parseInt\<close> reads from the first group.\<close>

lemma matchRelative_Some_iff:
  "matchRelative s = Some (a, u) \<longleftrightarrow>
     s = a @ [u] \<and> u \<in> set ''dhm''
     \<and> (\<exists>ds. ds \<noteq> [] \<and> list_all isDigit ds \<and> (a = ds \<or> a = CHR ''-'' # ds))"
proof (cases "s = []")
  case True
  then show ?thesis by (simp add: matchRelative_def)
next
  case False
  then have s: "s = butlast s @ [last s]" by simp
  have nd: "\<not> isDigit (CHR ''-'')" by (simp add: isDigit_def)
  show ?thesis
  proof (cases "butlast s")
    case Nil
    then show ?thesis
      using False s by (auto simp: matchRelative_def Let_def)
  next
    case (Cons c r)
    show ?thesis
    proof
      assume "matchRelative s = Some (a, u)"
      then show "s = a @ [u] \<and> u \<in> set ''dhm''
                 \<and> (\<exists>ds. ds \<noteq> [] \<and> list_all isDigit ds \<and> (a = ds \<or> a = CHR ''-'' # ds))"
        using False s Cons
        by (auto simp: matchRelative_def Let_def split: if_splits)
    next
      assume h: "s = a @ [u] \<and> u \<in> set ''dhm''
                 \<and> (\<exists>ds. ds \<noteq> [] \<and> list_all isDigit ds \<and> (a = ds \<or> a = CHR ''-'' # ds))"
      then have a: "butlast s = a" "last s = u" by simp_all
      from h obtain ds where ds: "ds \<noteq> []" "list_all isDigit ds"
        and ads: "a = ds \<or> a = CHR ''-'' # ds" by blast
      from ds have "hd ds \<noteq> CHR ''-''" using nd by (cases ds) auto
      with ds ads have "(case a of [] \<Rightarrow> [] | c # r \<Rightarrow> if c = CHR ''-'' then r else a) = ds"
        by (cases ds) auto
      then show "matchRelative s = Some (a, u)"
        using False h ds a by (simp add: matchRelative_def Let_def)
    qed
  qed
qed

lemma matchRelative_None: "matchRelative s = None \<Longrightarrow> parseRelativeDate P s = dateParse P s"
  by (simp add: parseRelativeDate_def)

lemma parseRelativeDate_unit:
  assumes "matchRelative s = Some (a, u)"
  shows "u = CHR ''d'' \<Longrightarrow>
           parseRelativeDate P s = setDate P (now P) (getDate P (now P) + parseInt10 a)"
    and "u = CHR ''h'' \<Longrightarrow>
           parseRelativeDate P s = setHours P (now P) (getHours P (now P) + parseInt10 a)"
    and "u = CHR ''m'' \<Longrightarrow>
           parseRelativeDate P s = setMonth P (now P) (getMonth P (now P) + parseInt10 a)"
  using assms by (simp_all add: parseRelativeDate_def Let_def)

lemma parseDigits_snoc: "parseDigits (ds @ [c]) = 10 * parseDigits ds + digitVal c"
  by (simp add: parseDigits_def)

lemma parseInt10_sign:
  assumes "ds \<noteq> []" "list_all isDigit ds"
  shows "parseInt10 ds = parseDigits ds" and "parseInt10 (CHR ''-'' # ds) = - parseDigits ds"
proof -
  have "\<not> isDigit (CHR ''-'')" by (simp add: isDigit_def)
  with assms have "hd ds \<noteq> CHR ''-''" by (cases ds) auto
  with assms(1) show "parseInt10 ds = parseDigits ds"
    by (cases ds) (simp_all add: parseInt10_def)
  show "parseInt10 (CHR ''-'' # ds) = - parseDigits ds"
    by (simp add: parseInt10_def)
qed

text \<open>
  C5, as stated, fails: \<open>-200000000d\<close> matches the pattern, and 200 000 000 days before
  31 March 2023 is no time value of the platform (time values end 100 000 000 days from
  the epoch); the result is an invalid date.
\<close>

theorem parseRelativeDate_out_of_range:
  "matchRelative ''-200000000d'' = Some (''-200000000'', CHR ''d'')
   \<and> parseInt10 ''-200000000'' = - 200000000
   \<and> now examplePlatform = 1680264000000
   \<and> parseRelativeDate examplePlatform ''-200000000d'' = None"
  by code_simp

text \<open>
  A string the pattern does not match gets the date the platform's parser gives it,
  valid or not; a leading plus sign does not match the pattern.
\<close>

lemma platform_parser_decides:
  "matchRelative ''March 7, 2020'' = None"
  "parseRelativeDate lenientPlatform ''March 7, 2020'' = Some 1583539200000"
  "parseRelativeDate examplePlatform ''March 7, 2020'' = None"
  "matchRelative ''+30d'' = None"
  by code_simp+

lemma example_dates:
  "parseRelativeDate examplePlatform ''-30d'' = Some 1677672000000"
  "parseRelativeDate examplePlatform ''5h'' = Some 1680282000000"
  "parseRelativeDate examplePlatform ''-1m'' = Some 1677844800000"
  "parseRelativeDate examplePlatform ''abc'' = None"
  by code_simp+

lemma example_fields:
  "YearFromTime 1680264000000 = 2023" "MonthFromTime 1680264000000 = 2"
  "DateFromTime 1680264000000 = 31"
  "YearFromTime 1677844800000 = 2023" "MonthFromTime 1677844800000 = 2"
  "DateFromTime 1677844800000 = 3"
  by code_simp+

text \<open>
  Across a change of the offset a calendar day is not 86 400 000 ms: in the zone of
  \<open>newYorkPlatform\<close>, 30 days before 31 March 2023, 08:00 local time (12:00 UTC), is
  1 March 2023, 08:00 local time, which is 13:00 UTC: 30 days of 24 hours, less one hour.
\<close>

lemma example_daylight_saving:
  "LocalTime newYorkPlatform (now newYorkPlatform) = 1680249600000"
  "parseRelativeDate newYorkPlatform ''-30d'' = Some 1677675600000"
  "(1677675600000 :: int) = 1680264000000 - 30 * 86400000 + 3600000"
  "LocalTime newYorkPlatform 1677675600000 = 1680249600000 - 30 * 86400000"
  by code_simp+

text \<open>
  C5, amended. Let \<open>a\<close> be a string of digits \<open>ds\<close> with an optional minus sign in
  front, and \<open>N\<close> the integer it denotes (\<open>parseInt10 a\<close>); no other strings match
  the pattern with a unit behind them (\<open>matchRelative_Some_iff\<close>), a plus sign does
  not. At clock reading \<open>T = now P\<close>, the result is \<open>T\<close> plus \<open>N\<close> calendar units,
  reckoned on the local date and time of \<open>T\<close>:
  \<^item> \<open>a\<close> followed by \<open>d\<close> gives the instant the platform has for the local date and
    time \<open>N\<close> days from that of \<open>T\<close>: the day number moved by \<open>N\<close>, the time of day
    kept;
  \<^item> \<open>a\<close> followed by \<open>h\<close> gives the instant the platform has for the local date and
    time \<open>N\<close> hours from that of \<open>T\<close>;
  \<^item> \<open>a\<close> followed by \<open>m\<close> gives the instant the platform has for the local date and
    time with the time of day of \<open>T\<close>, on the day of the month of \<open>T\<close> in the month
    \<open>N\<close> months from the month of \<open>T\<close>; when that month is shorter, the date is
    carried into the next month by the excess (31 March minus one month is 3 March);
  \<^item> in a zone whose offset never changes, the first two are \<open>T\<close> plus \<open>N\<close> times
    86 400 000 ms and \<open>T\<close> plus \<open>N\<close> times 3 600 000 ms;
  \<^item> in each case the result is an invalid date (\<open>None\<close>) when the instant is more than
    8 640 000 000 000 000 ms from the epoch (\<open>TimeClip\<close>);
  \<^item> a string the pattern does not match is handed to the platform's \<open>Date\<close>
    constructor: the result is invalid exactly when the platform's parser rejects it.
\<close>

theorem parseRelativeDate_relative:
  assumes ds: "ds \<noteq> []" "list_all isDigit ds" and a: "a = ds \<or> a = CHR ''-'' # ds"
  shows "parseRelativeDate P (a @ ''d'')
           = TimeClip (UTC P (LocalTime P (now P) + parseInt10 a * msPerDay))
       \<and> Day (LocalTime P (now P) + parseInt10 a * msPerDay)
           = Day (LocalTime P (now P)) + parseInt10 a
       \<and> TimeWithinDay (LocalTime P (now P) + parseInt10 a * msPerDay)
           = TimeWithinDay (LocalTime P (now P))
       \<and> parseRelativeDate P (a @ ''h'')
           = TimeClip (UTC P (LocalTime P (now P) + parseInt10 a * msPerHour))
       \<and> (\<exists>x. parseRelativeDate P (a @ ''m'') = TimeClip (UTC P x)
              \<and> (let t = LocalTime P (now P);
                      ym = YearFromTime t + (MonthFromTime t + parseInt10 a) div 12;
                      mn = (MonthFromTime t + parseInt10 a) mod 12
                  in TimeWithinDay x = TimeWithinDay t
                     \<and> (DateFromTime t \<le> DaysInMonth mn ym \<longrightarrow>
                           YearFromTime x = ym \<and> MonthFromTime x = mn
                           \<and> DateFromTime x = DateFromTime t)
                     \<and> (DaysInMonth mn ym < DateFromTime t \<longrightarrow>
                           YearFromTime x = ym \<and> MonthFromTime x = mn + 1
                           \<and> DateFromTime x = DateFromTime t - DaysInMonth mn ym)))
       \<and> (\<forall>c. (\<forall>t u. localTZA P t u = c) \<longrightarrow>
              parseRelativeDate P (a @ ''d'') = TimeClip (now P + parseInt10 a * msPerDay)
              \<and> parseRelativeDate P (a @ ''h'') = TimeClip (now P + parseInt10 a * msPerHour))
       \<and> parseInt10 a = (if a = ds then parseDigits ds else - parseDigits ds)
       \<and> (\<forall>s. matchRelative s = None \<longrightarrow> parseRelativeDate P s = dateParse P s)"
proof -
  have m: "matchRelative (a @ [u]) = Some (a, u)" if "u \<in> set ''dhm''" for u
    using that ds a by (subst matchRelative_Some_iff) blast
  have d: "parseRelativeDate P (a @ ''d'')
             = TimeClip (UTC P (LocalTime P (now P) + parseInt10 a * msPerDay))"
    using parseRelativeDate_unit(1) [OF m [of "CHR ''d''"], of P]
    by (simp add: setDate_getDate)
  have h: "parseRelativeDate P (a @ ''h'')
             = TimeClip (UTC P (LocalTime P (now P) + parseInt10 a * msPerHour))"
    using parseRelativeDate_unit(2) [OF m [of "CHR ''h''"], of P]
    by (simp add: setHours_getHours)
  define x where
    "x = MakeDate
           (MakeDay (YearFromTime (LocalTime P (now P)))
              (MonthFromTime (LocalTime P (now P)) + parseInt10 a)
              (DateFromTime (LocalTime P (now P))))
           (TimeWithinDay (LocalTime P (now P)))"
  have mo: "parseRelativeDate P (a @ ''m'') = TimeClip (UTC P x)"
    using parseRelativeDate_unit(3) [OF m [of "CHR ''m''"], of P]
    by (simp add: setMonth_getMonth x_def)
  have f: "let t = LocalTime P (now P);
               ym = YearFromTime t + (MonthFromTime t + parseInt10 a) div 12;
               mn = (MonthFromTime t + parseInt10 a) mod 12
           in TimeWithinDay x = TimeWithinDay t
              \<and> (DateFromTime t \<le> DaysInMonth mn ym \<longrightarrow>
                    YearFromTime x = ym \<and> MonthFromTime x = mn
                    \<and> DateFromTime x = DateFromTime t)
              \<and> (DaysInMonth mn ym < DateFromTime t \<longrightarrow>
                    YearFromTime x = ym \<and> MonthFromTime x = mn + 1
                    \<and> DateFromTime x = DateFromTime t - DaysInMonth mn ym)"
    unfolding Let_def
    using month_shift_fields [OF refl refl x_def] by blast
  have fx: "parseRelativeDate P (a @ ''d'') = TimeClip (now P + parseInt10 a * msPerDay)
            \<and> parseRelativeDate P (a @ ''h'') = TimeClip (now P + parseInt10 a * msPerHour)"
    if "\<forall>t u. localTZA P t u = c" for c
    unfolding d h using fixed_offset [OF that] by simp
  have p: "parseInt10 a = (if a = ds then parseDigits ds else - parseDigits ds)"
    using a parseInt10_sign [OF ds] by auto
  have e: "\<exists>x. parseRelativeDate P (a @ ''m'') = TimeClip (UTC P x)
              \<and> (let t = LocalTime P (now P);
                      ym = YearFromTime t + (MonthFromTime t + parseInt10 a) div 12;
                      mn = (MonthFromTime t + parseInt10 a) mod 12
                  in TimeWithinDay x = TimeWithinDay t
                     \<and> (DateFromTime t \<le> DaysInMonth mn ym \<longrightarrow>
                           YearFromTime x = ym \<and> MonthFromTime x = mn
                           \<and> DateFromTime x = DateFromTime t)
                     \<and> (DaysInMonth mn ym < DateFromTime t \<longrightarrow>
                           YearFromTime x = ym \<and> MonthFromTime x = mn + 1
                           \<and> DateFromTime x = DateFromTime t - DaysInMonth mn ym))"
    using mo f by blast
  have np: "\<forall>s. matchRelative s = None \<longrightarrow> parseRelativeDate P s = dateParse P s"
    using matchRelative_None by blast
  have fx': "\<forall>c. (\<forall>t u. localTZA P t u = c) \<longrightarrow>
              parseRelativeDate P (a @ ''d'') = TimeClip (now P + parseInt10 a * msPerDay)
              \<and> parseRelativeDate P (a @ ''h'') = TimeClip (now P + parseInt10 a * msPerHour)"
    using fx by blast
  show ?thesis
    by (intro conjI) (rule d shifted_day h e fx' p np)+
qed

theorem parseRelativeDate_relative_witness:
  "list_all isDigit ''30''
   \<and> parseRelativeDate examplePlatform ''-30d'' = Some (1680264000000 - 30 * 86400000)
   \<and> parseRelativeDate newYorkPlatform ''-30d'' = Some (1680264000000 - 30 * 86400000 + 3600000)
   \<and> LocalTime newYorkPlatform 1677675600000
       = LocalTime newYorkPlatform 1680264000000 - 30 * 86400000
   \<and> parseRelativeDate examplePlatform ''-1m'' = Some 1677844800000
   \<and> DateFromTime 1680264000000 = 31 \<and> MonthFromTime 1680264000000 = 2
   \<and> DateFromTime 1677844800000 = 3 \<and> MonthFromTime 1677844800000 = 2
   \<and> parseRelativeDate examplePlatform ''abc'' = None"
proof -
  have d: "''30'' \<noteq> []" "list_all isDigit ''30''" "''-30'' = ''30'' \<or> ''-30'' = CHR ''-'' # ''30''"
    by (simp_all add: isDigit_def)
  have e: "parseRelativeDate examplePlatform (''-30'' @ ''d'')
             = TimeClip (UTC examplePlatform
                 (LocalTime examplePlatform (now examplePlatform) + parseInt10 ''-30'' * msPerDay))"
    by (rule parseRelativeDate_relative [OF d, THEN conjunct1])
  have ev: "TimeClip (UTC examplePlatform
              (LocalTime examplePlatform (now examplePlatform) + parseInt10 ''-30'' * msPerDay))
            = Some 1677672000000"
    by code_simp
  have n: "parseRelativeDate newYorkPlatform (''-30'' @ ''d'')
             = TimeClip (UTC newYorkPlatform
                 (LocalTime newYorkPlatform (now newYorkPlatform) + parseInt10 ''-30'' * msPerDay))"
    by (rule parseRelativeDate_relative [OF d, THEN conjunct1])
  have nv: "TimeClip (UTC newYorkPlatform
              (LocalTime newYorkPlatform (now newYorkPlatform) + parseInt10 ''-30'' * msPerDay))
            = Some 1677675600000"
    by code_simp
  have c1: "parseRelativeDate examplePlatform ''-30d'' = Some (1680264000000 - 30 * 86400000)"
    using e ev by simp
  have c2: "parseRelativeDate newYorkPlatform ''-30d''
              = Some (1680264000000 - 30 * 86400000 + 3600000)"
    using n nv by simp
  have c3: "LocalTime newYorkPlatform 1677675600000
              = LocalTime newYorkPlatform 1680264000000 - 30 * 86400000"
    by code_simp
  show ?thesis
    by (intro conjI) (rule d(2) c1 c2 c3 example_dates example_fields)+
qed

end
